theory Spec2Isabelle
  imports Complex_Main
begin

section \<open>The Lorenz 84 model of CDSK\<close>

text \<open>
  A shallow embedding of \<^verbatim>\<open>CDSK/__Lorenz84.py\<close>: the class \<^verbatim>\<open>Lorenz84\<close>, its
  nested class \<^verbatim>\<open>TimeForcing\<close>, the constructor and the vector field \<^verbatim>\<open>_equation\<close>.

  Python floats are idealised as the real numbers: rounding, infinities and NaN are not
  modelled there, so the equations of the vector field are equations of exact real
  arithmetic. \<^verbatim>\<open>TimeForcing.linear\<close> is given on binary64 values as well, for what depends on
  rounding. The numpy arrays
  the code works on are one-dimensional (the packed state vector), modelled as lists
  living in a store, so that allocation and in-place assignment are visible.
\<close>

subsection \<open>Exceptions\<close>

datatype error = ValueError | TypeError | ZeroDivisionError

definition ebind :: "error + 'a \<Rightarrow> ('a \<Rightarrow> error + 'b) \<Rightarrow> error + 'b" where
  "ebind m f = (case m of Inl e \<Rightarrow> Inl e | Inr x \<Rightarrow> f x)"

subsection \<open>TimeForcing\<close>

definition TimeForcing_constant :: "real \<Rightarrow> real" where
  "TimeForcing_constant t = 6"

definition TimeForcing_cyclic :: "real \<Rightarrow> real" where
  "TimeForcing_cyclic t = 9.5 + 2 * sin (t * 2 * pi / 73)"

text \<open>
  \<^verbatim>\<open>return 0 if t < tcc else -2 * ( t - tcc ) / tcc\<close>: the division raises when
  \<^verbatim>\<open>tcc\<close> is zero and the second branch is taken.
\<close>

definition TimeForcing_linear :: "real \<Rightarrow> real \<Rightarrow> error + real" where
  "TimeForcing_linear t tcc =
     (if t < tcc then Inr 0
      else if tcc = 0 then Inl ZeroDivisionError
      else Inr (- 2 * (t - tcc) / tcc))"

text \<open>The default value of the parameter \<^verbatim>\<open>tcc\<close>.\<close>

definition tcc_default :: real where
  "tcc_default = 100 * 73"

subsection \<open>Binary64 arithmetic\<close>

text \<open>
  Where a claim depends on rounding, the floats are taken as they are: a Python float is
  an IEEE 754 binary64 value, that is a real number with a significand of 53 bits, an
  infinity or a NaN. The two zeros compare equal and are not told apart here.

  \<open>fl\<close> rounds a real number to the nearest double, ties to even. The magnitude is
  rounded to a multiple of the quantum of its binade, \<open>2\<^sup>e\<^sup>-\<^sup>5\<^sup>2\<close> for magnitudes from
  \<open>2\<^sup>e\<close> up to \<open>2\<^sup>e\<^sup>+\<^sup>1\<close>; below \<open>2\<^sup>-\<^sup>1\<^sup>0\<^sup>2\<^sup>2\<close> the quantum stays that of the least
  binade (the subnormals). A rounded magnitude of \<open>2\<^sup>1\<^sup>0\<^sup>2\<^sup>4\<close> or more is an infinity.
\<close>

definition expo :: "real \<Rightarrow> int" where
  "expo x = (if \<bar>x\<bar> < 2 powr (- 1022) then - 1022 else \<lfloor>log 2 \<bar>x\<bar>\<rfloor>)"

definition quantum :: "real \<Rightarrow> real" where
  "quantum x = 2 powr of_int (expo x - 52)"

definition round_half_even :: "real \<Rightarrow> int" where
  "round_half_even m =
     (let f = \<lfloor>m\<rfloor>; r = m - of_int f
      in if r < 1 / 2 then f else if 1 / 2 < r then f + 1
         else if even f then f else f + 1)"

definition round_mag :: "real \<Rightarrow> real" where
  "round_mag x = of_int (round_half_even (\<bar>x\<bar> / quantum x)) * quantum x"

datatype double = Finite real | PInf | NInf | NaN

definition fl :: "real \<Rightarrow> double" where
  "fl x =
     (let r = round_mag x
      in if 2 powr 1024 \<le> r then (if x < 0 then NInf else PInf)
         else Finite (if x < 0 then - r else r))"

text \<open>The doubles among the values of the type: every rounding returns one.\<close>

fun is_double :: "double \<Rightarrow> bool" where
  "is_double (Finite r) = (fl r = Finite r)"
| "is_double _ = True"

text \<open>
  Comparison, subtraction, multiplication and true division of Python floats. A
  comparison with a NaN is false. Only the division raises, on a zero divisor; an
  overflow gives an infinity.
\<close>

fun dle :: "double \<Rightarrow> double \<Rightarrow> bool" where
  "dle NaN _ = False"
| "dle _ NaN = False"
| "dle NInf _ = True"
| "dle _ PInf = True"
| "dle (Finite a) (Finite b) = (a \<le> b)"
| "dle _ _ = False"

fun dlt :: "double \<Rightarrow> double \<Rightarrow> bool" where
  "dlt NaN _ = False"
| "dlt _ NaN = False"
| "dlt (Finite a) (Finite b) = (a < b)"
| "dlt NInf NInf = False"
| "dlt NInf _ = True"
| "dlt PInf _ = False"
| "dlt _ PInf = True"
| "dlt _ _ = False"

fun dsub :: "double \<Rightarrow> double \<Rightarrow> double" where
  "dsub (Finite a) (Finite b) = fl (a - b)"
| "dsub NaN _ = NaN"
| "dsub _ NaN = NaN"
| "dsub PInf PInf = NaN"
| "dsub NInf NInf = NaN"
| "dsub PInf _ = PInf"
| "dsub NInf _ = NInf"
| "dsub _ PInf = NInf"
| "dsub _ NInf = PInf"

fun dmul :: "double \<Rightarrow> double \<Rightarrow> double" where
  "dmul (Finite a) (Finite b) = fl (a * b)"
| "dmul NaN _ = NaN"
| "dmul _ NaN = NaN"
| "dmul (Finite a) PInf = (if a = 0 then NaN else if 0 < a then PInf else NInf)"
| "dmul (Finite a) NInf = (if a = 0 then NaN else if 0 < a then NInf else PInf)"
| "dmul PInf (Finite b) = (if b = 0 then NaN else if 0 < b then PInf else NInf)"
| "dmul NInf (Finite b) = (if b = 0 then NaN else if 0 < b then NInf else PInf)"
| "dmul PInf PInf = PInf"
| "dmul NInf NInf = PInf"
| "dmul PInf NInf = NInf"
| "dmul NInf PInf = NInf"

fun ddiv :: "double \<Rightarrow> double \<Rightarrow> error + double" where
  "ddiv a (Finite b) =
     (if b = 0 then Inl ZeroDivisionError
      else Inr (case a of
                  Finite x \<Rightarrow> fl (x / b)
                | PInf \<Rightarrow> if 0 < b then PInf else NInf
                | NInf \<Rightarrow> if 0 < b then NInf else PInf
                | NaN \<Rightarrow> NaN))"
| "ddiv NaN _ = Inr NaN"
| "ddiv _ NaN = Inr NaN"
| "ddiv (Finite a) _ = Inr (Finite 0)"
| "ddiv _ _ = Inr NaN"

text \<open>
  \<^verbatim>\<open>return 0 if t < tcc else -2 * ( t - tcc ) / tcc\<close> on floats; the literals \<^verbatim>\<open>0\<close> and
  \<^verbatim>\<open>-2\<close> and the default \<^verbatim>\<open>100 * 73\<close> are integers that convert exactly.
\<close>

definition TimeForcing_linear_double :: "double \<Rightarrow> double \<Rightarrow> error + double" where
  "TimeForcing_linear_double t tcc =
     (if dlt t tcc then Inr (Finite 0)
      else ddiv (dmul (Finite (- 2)) (dsub t tcc)) tcc)"

definition tcc_default_double :: double where
  "tcc_default_double = Finite (100 * 73)"

subsection \<open>The model object and its constructor\<close>

text \<open>
  A forcing is a callable of the time; a call either returns a number or raises. The
  callables are taken to be pure: they read and write nothing of the model or the arrays.
\<close>

type_synonym forcing = "real \<Rightarrow> error + real"

text \<open>
  The values the constructor's argument \<^verbatim>\<open>F\<close> is told apart into: a callable, an
  object of type \<^verbatim>\<open>str\<close>, \<^verbatim>\<open>None\<close> (the default), and any other object that is
  neither callable nor a string (a number stands for those).
\<close>

datatype F_arg = Callable forcing | Str string | PyNone | PyFloat real

record Lorenz84 =
  self_dim :: nat
  self_size :: int
  self_bounds :: "real list list"
  self_a :: real
  self_b :: real
  self_G :: real
  self_F :: "forcing option"

text \<open>
  Modelled from the spec: \<^verbatim>\<open>DiffDynSyst.__init__\<close>, the constructor of the base class,
  is not among the sources. It is taken to record the state dimension, the orbit count and
  the bounds box it is given, and to check nothing.
\<close>

definition DiffDynSyst_init :: "nat \<Rightarrow> int \<Rightarrow> real list list \<Rightarrow> Lorenz84" where
  "DiffDynSyst_init dm sz bnds =
     \<lparr> self_dim = dm, self_size = sz, self_bounds = bnds,
       self_a = 0, self_b = 0, self_G = 0, self_F = None \<rparr>"

text \<open>
  The callables the constructor stores in \<^verbatim>\<open>self.F\<close>: the three functions of
  \<^verbatim>\<open>TimeForcing\<close> (\<^verbatim>\<open>linear\<close> is then called with one argument, so with the
  default \<^verbatim>\<open>tcc\<close>) and
  \<^verbatim>\<open>lambda t : self.TimeForcing.cyclic(t) + self.TimeForcing.linear(t)\<close>.
\<close>

definition forcing_constant :: forcing where
  "forcing_constant t = Inr (TimeForcing_constant t)"

definition forcing_cyclic :: forcing where
  "forcing_cyclic t = Inr (TimeForcing_cyclic t)"

definition forcing_linear :: forcing where
  "forcing_linear t = TimeForcing_linear t tcc_default"

definition forcing_cyclic_linear :: forcing where
  "forcing_cyclic_linear t =
     ebind (TimeForcing_linear t tcc_default) (\<lambda>l. Inr (TimeForcing_cyclic t + l))"

definition init :: "real \<Rightarrow> real \<Rightarrow> real \<Rightarrow> F_arg \<Rightarrow> int \<Rightarrow> Lorenz84" where
  "init a b G F sz =
     (let self = DiffDynSyst_init 3 sz [[- 1, - 3, - 3], [3, 3, 3]];
          self = self \<lparr> self_a := a \<rparr>;
          self = self \<lparr> self_b := b \<rparr>;
          self = self \<lparr> self_G := G \<rparr>;
          self = self \<lparr> self_F := None \<rparr>
      in case F of
           Callable f \<Rightarrow> self \<lparr> self_F := Some f \<rparr>
         | Str s \<Rightarrow>
             if s = ''cyclic'' then self \<lparr> self_F := Some forcing_cyclic \<rparr>
             else if s = ''linear'' then self \<lparr> self_F := Some forcing_linear \<rparr>
             else if s = ''cyclic-linear'' then self \<lparr> self_F := Some forcing_cyclic_linear \<rparr>
             else self
         | _ \<Rightarrow> self \<lparr> self_F := Some forcing_constant \<rparr>)"

text \<open>\<^verbatim>\<open>self.F(t)\<close>: calling \<^verbatim>\<open>None\<close> raises a \<^verbatim>\<open>TypeError\<close>.\<close>

definition call_F :: "Lorenz84 \<Rightarrow> real \<Rightarrow> error + real" where
  "call_F self t = (case self_F self of None \<Rightarrow> Inl TypeError | Some f \<Rightarrow> f t)"

subsection \<open>The numpy operations the vector field uses\<close>

text \<open>
  \<^verbatim>\<open>X[k::3]\<close> reads the entries at the indices \<^verbatim>\<open>range(k, len(X), 3)\<close>.
\<close>

definition slice3_len :: "nat \<Rightarrow> nat \<Rightarrow> nat" where
  "slice3_len k n = (n - k + 2) div 3"

definition slice3 :: "nat \<Rightarrow> 'a list \<Rightarrow> 'a list" where
  "slice3 k xs = map (\<lambda>j. xs ! (k + 3 * j)) [0 ..< slice3_len k (length xs)]"

text \<open>
  Broadcasting of one-dimensional arrays: an array of the wanted length is taken as it
  is, an array of length one is repeated, any other length raises a \<^verbatim>\<open>ValueError\<close>.
\<close>

definition broadcast_to :: "nat \<Rightarrow> 'a list \<Rightarrow> error + 'a list" where
  "broadcast_to n xs =
     (if length xs = n then Inr xs
      else if length xs = 1 then Inr (replicate n (hd xs))
      else Inl ValueError)"

definition np_binop :: "(real \<Rightarrow> real \<Rightarrow> real) \<Rightarrow> real list \<Rightarrow> real list \<Rightarrow> error + real list" where
  "np_binop f xs ys =
     (let n = (if length xs = 1 then length ys else length xs)
      in ebind (broadcast_to n xs) (\<lambda>xs'.
         ebind (broadcast_to n ys) (\<lambda>ys'.
         Inr (map2 f xs' ys'))))"

definition np_add :: "real list \<Rightarrow> real list \<Rightarrow> error + real list" where
  "np_add = np_binop (+)"

definition np_sub :: "real list \<Rightarrow> real list \<Rightarrow> error + real list" where
  "np_sub = np_binop (-)"

definition np_mul :: "real list \<Rightarrow> real list \<Rightarrow> error + real list" where
  "np_mul = np_binop (*)"

definition np_neg :: "real list \<Rightarrow> real list" where
  "np_neg xs = map uminus xs"

definition np_sq :: "real list \<Rightarrow> real list" where
  "np_sq xs = map (\<lambda>x. x ^ 2) xs"

definition np_smul :: "real \<Rightarrow> real list \<Rightarrow> real list" where
  "np_smul c xs = map (\<lambda>x. c * x) xs"

definition np_adds :: "real list \<Rightarrow> real \<Rightarrow> real list" where
  "np_adds xs c = map (\<lambda>x. x + c) xs"

text \<open>
  \<^verbatim>\<open>dst[k::3] = vs\<close>: the value is broadcast to the length of the slice and written at
  the indices of the slice; the other entries of \<^verbatim>\<open>dst\<close> stay.
\<close>

definition set_slice3 :: "nat \<Rightarrow> real list \<Rightarrow> real list \<Rightarrow> error + real list" where
  "set_slice3 k vs dst =
     ebind (broadcast_to (slice3_len k (length dst)) vs) (\<lambda>vs'.
     Inr (map (\<lambda>i. if k \<le> i \<and> (i - k) mod 3 = 0 then vs' ! ((i - k) div 3) else dst ! i)
            [0 ..< length dst]))"

subsection \<open>The store\<close>

text \<open>
  The model object and the arrays that exist. An array is named by its address, its
  position in \<open>arrays\<close>; \<^verbatim>\<open>np.zeros\<close> allocates at the next free address.
\<close>

type_synonym addr = nat

record world =
  model :: Lorenz84
  arrays :: "real list list"

definition np_zeros :: "nat \<Rightarrow> world \<Rightarrow> addr \<times> world" where
  "np_zeros n w = (length (arrays w), w \<lparr> arrays := arrays w @ [replicate n 0] \<rparr>)"

text \<open>A statement runs in a world and leaves a world, normally or with an exception.\<close>

type_synonym 'a stmt = "world \<Rightarrow> world \<times> (error + 'a)"

definition assign_slice3 :: "addr \<Rightarrow> nat \<Rightarrow> error + real list \<Rightarrow> unit stmt" where
  "assign_slice3 dX k rhs w =
     (case rhs of
        Inl e \<Rightarrow> (w, Inl e)
      | Inr vs \<Rightarrow>
          (case set_slice3 k vs (arrays w ! dX) of
             Inl e \<Rightarrow> (w, Inl e)
           | Inr d \<Rightarrow> (w \<lparr> arrays := (arrays w)[dX := d] \<rparr>, Inr ())))"

definition and_then :: "unit stmt \<Rightarrow> 'a stmt \<Rightarrow> 'a stmt" where
  "and_then s1 s2 w =
     (case s1 w of (w', Inl e) \<Rightarrow> (w', Inl e) | (w', Inr _) \<Rightarrow> s2 w')"

definition return_addr :: "addr \<Rightarrow> addr stmt" where
  "return_addr d w = (w, Inr d)"

subsection \<open>The vector field\<close>

text \<open>
  The right-hand sides of the three assignments of \<^verbatim>\<open>_equation\<close>, each evaluated from
  left to right as Python does:
  \<^verbatim>\<open>- X[1::3]**2 - X[2::3]**2 - self.a * X[::3] + self.a * self.F(t)\<close>,
  \<^verbatim>\<open>X[::3] * X[1::3] - self.b * X[::3] * X[2::3] - X[1::3] + self.G\<close> and
  \<^verbatim>\<open>X[::3] * X[2::3] + self.b * X[::3] * X[1::3] - X[2::3]\<close>.
\<close>

definition rhs_x :: "Lorenz84 \<Rightarrow> real list \<Rightarrow> real \<Rightarrow> error + real list" where
  "rhs_x self X t =
     ebind (np_sub (np_neg (np_sq (slice3 1 X))) (np_sq (slice3 2 X))) (\<lambda>r1.
     ebind (np_sub r1 (np_smul (self_a self) (slice3 0 X))) (\<lambda>r2.
     ebind (call_F self t) (\<lambda>Ft.
     Inr (np_adds r2 (self_a self * Ft)))))"

definition rhs_y :: "Lorenz84 \<Rightarrow> real list \<Rightarrow> error + real list" where
  "rhs_y self X =
     ebind (np_mul (slice3 0 X) (slice3 1 X)) (\<lambda>r1.
     ebind (np_mul (np_smul (self_b self) (slice3 0 X)) (slice3 2 X)) (\<lambda>r2.
     ebind (np_sub r1 r2) (\<lambda>r3.
     ebind (np_sub r3 (slice3 1 X)) (\<lambda>r4.
     Inr (np_adds r4 (self_G self))))))"

definition rhs_z :: "Lorenz84 \<Rightarrow> real list \<Rightarrow> error + real list" where
  "rhs_z self X =
     ebind (np_mul (slice3 0 X) (slice3 2 X)) (\<lambda>r1.
     ebind (np_mul (np_smul (self_b self) (slice3 0 X)) (slice3 1 X)) (\<lambda>r2.
     ebind (np_add r1 r2) (\<lambda>r3.
     np_sub r3 (slice3 2 X))))"

text \<open>
  \<^verbatim>\<open>_equation(self, X, t)\<close>: \<open>X\<close> is the address of the state vector. The result is the
  world the call leaves and either the address of \<^verbatim>\<open>dX\<close> or the exception raised.
\<close>

definition equation :: "world \<Rightarrow> addr \<Rightarrow> real \<Rightarrow> world \<times> (error + addr)" where
  "equation w X t =
     (let (dX, w0) = np_zeros (length (arrays w ! X)) w
      in and_then (\<lambda>w. assign_slice3 dX 0 (rhs_x (model w) (arrays w ! X) t) w)
        (and_then (\<lambda>w. assign_slice3 dX 1 (rhs_y (model w) (arrays w ! X)) w)
        (and_then (\<lambda>w. assign_slice3 dX 2 (rhs_z (model w) (arrays w ! X)) w)
        (return_addr dX))) w0)"

text \<open>What the caller gets: the array returned, or the exception.\<close>

definition returned :: "world \<times> (error + addr) \<Rightarrow> error + real list" where
  "returned r = (case r of (w, Inl e) \<Rightarrow> Inl e | (w, Inr d) \<Rightarrow> Inr (arrays w ! d))"

subsection \<open>Auxiliary notions for the proofs\<close>

text \<open>
  The vector field as the equations of the model are written, entry by entry: entry \<open>j\<close>
  of the derivative belongs to orbit \<open>j div 3\<close> and to component \<open>j mod 3\<close>.
\<close>

definition field_entry :: "Lorenz84 \<Rightarrow> real \<Rightarrow> real list \<Rightarrow> nat \<Rightarrow> real" where
  "field_entry self Ft X j =
     (let i = j div 3; x = X ! (3 * i); y = X ! (3 * i + 1); z = X ! (3 * i + 2)
      in if j mod 3 = 0 then - (y ^ 2) - z ^ 2 - self_a self * x + self_a self * Ft
         else if j mod 3 = 1 then x * y - self_b self * x * z - y + self_G self
         else x * z + self_b self * x * y - z)"

text \<open>
  The length of the result of an operation on two arrays of lengths \<open>p\<close> and \<open>q\<close>, when
  the two broadcast.
\<close>

definition broadcast_len :: "nat \<Rightarrow> nat \<Rightarrow> nat option" where
  "broadcast_len p q =
     (if p = 1 then Some q else if q = p \<or> q = 1 then Some p else None)"

text \<open>A model with the default parameters and a store holding one state vector.\<close>

definition example_model :: "F_arg \<Rightarrow> Lorenz84" where
  "example_model F = init (1 / 4) 4 1 F 1"

definition example_world :: "F_arg \<Rightarrow> real list \<Rightarrow> world" where
  "example_world F xs = \<lparr> model = example_model F, arrays = [xs] \<rparr>"

section \<open>Lemmas\<close>

lemma ebind_Inr [simp]: "ebind (Inr x) f = f x"
  by (simp add: ebind_def)

lemma ebind_Inl [simp]: "ebind (Inl e) f = Inl e"
  by (simp add: ebind_def)

lemma ebind_eq_Inr: "ebind m f = Inr y \<longleftrightarrow> (\<exists>x. m = Inr x \<and> f x = Inr y)"
  by (cases m) simp_all

lemma ebind_eq_Inl: "ebind m f = Inl e \<longleftrightarrow> (m = Inl e \<or> (\<exists>x. m = Inr x \<and> f x = Inl e))"
  by (cases m) simp_all

lemma length_slice3 [simp]: "length (slice3 k xs) = slice3_len k (length xs)"
  by (simp add: slice3_def)

lemma slice3_len_0: "slice3_len 0 n = (n + 2) div 3"
  by (simp add: slice3_len_def)

lemma slice3_len_1: "slice3_len (Suc 0) n = (n + 1) div 3"
  by (cases n) (simp_all add: slice3_len_def)

lemma slice3_len_2: "slice3_len 2 n = n div 3"
proof (cases "2 \<le> n")
  case True
  then show ?thesis by (simp add: slice3_len_def)
next
  case False
  then have "n = 0 \<or> n = 1" by arith
  then show ?thesis by (auto simp: slice3_len_def)
qed

lemma slice3_len_packed: "k < 3 \<Longrightarrow> slice3_len k (3 * N) = N"
  unfolding slice3_len_def by (cases N) auto

lemma broadcast_to_same [simp]: "length xs = n \<Longrightarrow> broadcast_to n xs = Inr xs"
  by (simp add: broadcast_to_def)

lemma broadcast_to_Inr:
  "broadcast_to n xs = Inr ys \<Longrightarrow> length ys = n \<and> (length xs = n \<or> length xs = 1)"
  by (auto simp: broadcast_to_def split: if_splits)

lemma broadcast_to_Inl: "broadcast_to n xs = Inl e \<Longrightarrow> e = ValueError"
  by (auto simp: broadcast_to_def split: if_splits)

lemma np_binop_same: "length xs = length ys \<Longrightarrow> np_binop f xs ys = Inr (map2 f xs ys)"
  by (simp add: np_binop_def)

text \<open>The length an operation on two arrays gives when it does not raise.\<close>

lemma np_binop_Inr:
  "np_binop f xs ys = Inr zs \<Longrightarrow>
     length zs = (if length xs = 1 then length ys else length xs) \<and>
     (length xs = length ys \<or> length xs = 1 \<or> length ys = 1)"
  by (auto simp: np_binop_def Let_def ebind_eq_Inr dest!: broadcast_to_Inr split: if_splits)

lemma np_binop_Inl: "np_binop f xs ys = Inl e \<Longrightarrow> e = ValueError"
  by (auto simp: np_binop_def Let_def ebind_eq_Inl dest: broadcast_to_Inl)

lemma length_set_slice3: "set_slice3 k vs dst = Inr d \<Longrightarrow> length d = length dst"
  by (auto simp: set_slice3_def ebind_eq_Inr)

lemma set_slice3_Inr:
  "set_slice3 k vs dst = Inr d \<Longrightarrow>
     length vs = slice3_len k (length dst) \<or> length vs = 1"
  by (auto simp: set_slice3_def ebind_eq_Inr dest!: broadcast_to_Inr)

lemma set_slice3_Inl: "set_slice3 k vs dst = Inl e \<Longrightarrow> e = ValueError"
  by (auto simp: set_slice3_def ebind_eq_Inl dest: broadcast_to_Inl)

lemma set_slice3_same:
  "length vs = slice3_len k (length dst) \<Longrightarrow>
   set_slice3 k vs dst =
     Inr (map (\<lambda>i. if k \<le> i \<and> (i - k) mod 3 = 0 then vs ! ((i - k) div 3) else dst ! i)
            [0 ..< length dst])"
  by (simp add: set_slice3_def)

lemma slice3_packed:
  "length X = 3 * N \<Longrightarrow> k < 3 \<Longrightarrow> slice3 k X = map (\<lambda>j. X ! (k + 3 * j)) [0 ..< N]"
  by (simp add: slice3_def slice3_len_packed)

lemma np_binop_maps:
  "np_binop f (map g [0 ..< N]) (map h [0 ..< N]) = Inr (map (\<lambda>i. f (g i) (h i)) [0 ..< N])"
  by (simp add: np_binop_same map2_map_map)

lemma rhs_x_packed:
  assumes "length X = 3 * N" and "call_F self t = Inr v"
  shows "rhs_x self X t =
    Inr (map (\<lambda>i. - ((X ! (3 * i + 1)) ^ 2) - (X ! (3 * i + 2)) ^ 2 - self_a self * X ! (3 * i)
                  + self_a self * v) [0 ..< N])"
  using assms
  by (simp add: rhs_x_def slice3_packed np_sub_def np_neg_def np_sq_def np_smul_def np_adds_def
      np_binop_maps o_def add.commute)

lemma rhs_y_packed:
  assumes "length X = 3 * N"
  shows "rhs_y self X =
    Inr (map (\<lambda>i. X ! (3 * i) * X ! (3 * i + 1) - self_b self * X ! (3 * i) * X ! (3 * i + 2)
                  - X ! (3 * i + 1) + self_G self) [0 ..< N])"
  using assms
  by (simp add: rhs_y_def slice3_packed np_sub_def np_mul_def np_smul_def np_adds_def
      np_binop_maps o_def add.commute)

lemma rhs_z_packed:
  assumes "length X = 3 * N"
  shows "rhs_z self X =
    Inr (map (\<lambda>i. X ! (3 * i) * X ! (3 * i + 2) + self_b self * X ! (3 * i) * X ! (3 * i + 1)
                  - X ! (3 * i + 2)) [0 ..< N])"
  using assms
  by (simp add: rhs_z_def slice3_packed np_sub_def np_mul_def np_add_def np_smul_def
      np_binop_maps o_def add.commute)

lemma third_Suc:
  fixes i :: nat
  shows "Suc (3 * i) div 3 = i" and "Suc (Suc (3 * i)) div 3 = i"
    and "Suc (3 * i) mod 3 = 1" and "Suc (Suc (3 * i)) mod 3 = 2"
  by presburger+

lemma field_entry_0:
  "field_entry self Ft X (3 * i) =
     - ((X ! (3 * i + 1)) ^ 2) - (X ! (3 * i + 2)) ^ 2 - self_a self * X ! (3 * i)
     + self_a self * Ft"
  by (simp add: field_entry_def Let_def)

lemma field_entry_1:
  "field_entry self Ft X (3 * i + 1) =
     X ! (3 * i) * X ! (3 * i + 1) - self_b self * X ! (3 * i) * X ! (3 * i + 2)
     - X ! (3 * i + 1) + self_G self"
  by (simp add: field_entry_def Let_def third_Suc)

lemma field_entry_2:
  "field_entry self Ft X (3 * i + 2) =
     X ! (3 * i) * X ! (3 * i + 2) + self_b self * X ! (3 * i) * X ! (3 * i + 1)
     - X ! (3 * i + 2)"
  by (simp add: field_entry_def Let_def third_Suc)

lemma slice_index:
  fixes j k :: nat
  assumes "k < 3"
  shows "(k \<le> j \<and> (j - k) mod 3 = 0) \<longleftrightarrow> j mod 3 = k"
    and "j mod 3 = k \<Longrightarrow> (j - k) div 3 = j div 3"
  using assms by presburger+

lemma nth_set_slice3:
  assumes "set_slice3 k vs dst = Inr d" and "length vs = slice3_len k (length dst)"
    and "j < length dst" and "k < 3"
  shows "d ! j = (if j mod 3 = k then vs ! (j div 3) else dst ! j)"
  using assms by (auto simp: set_slice3_same slice_index)

text \<open>One assignment to a slice of the array allocated last.\<close>

lemma assign_slice3_fresh:
  assumes "set_slice3 k vs d = Inr d'"
  shows "assign_slice3 (length (arrays w)) k (Inr vs) (w \<lparr> arrays := arrays w @ [d] \<rparr>)
         = (w \<lparr> arrays := arrays w @ [d'] \<rparr>, Inr ())"
  using assms by (simp add: assign_slice3_def)

lemma equation_packed:
  assumes X: "X < length (arrays w)" and len: "length (arrays w ! X) = 3 * N"
    and F: "call_F (model w) t = Inr v"
  shows "equation w X t =
    (w \<lparr> arrays := arrays w @ [map (field_entry (model w) v (arrays w ! X)) [0 ..< 3 * N]] \<rparr>,
     Inr (length (arrays w)))"
proof -
  let ?xs = "arrays w ! X"
  let ?m = "model w"
  let ?d0 = "replicate (3 * N) (0::real)"
  let ?v0 = "map (\<lambda>i. field_entry ?m v ?xs (3 * i)) [0 ..< N]"
  let ?v1 = "map (\<lambda>i. field_entry ?m v ?xs (3 * i + 1)) [0 ..< N]"
  let ?v2 = "map (\<lambda>i. field_entry ?m v ?xs (3 * i + 2)) [0 ..< N]"
  have v0: "rhs_x ?m ?xs t = Inr ?v0"
    by (simp only: rhs_x_packed [OF len F] field_entry_0)
  have v1: "rhs_y ?m ?xs = Inr ?v1"
    by (simp only: rhs_y_packed [OF len] field_entry_1)
  have v2: "rhs_z ?m ?xs = Inr ?v2"
    by (simp only: rhs_z_packed [OF len] field_entry_2)
  obtain d1 where d1: "set_slice3 0 ?v0 ?d0 = Inr d1"
    by (simp add: set_slice3_same slice3_len_packed)
  have ld1: "length d1 = 3 * N" using length_set_slice3 [OF d1] by simp
  obtain d2 where d2: "set_slice3 1 ?v1 d1 = Inr d2"
    using ld1 by (simp add: set_slice3_same slice3_len_packed)
  have ld2: "length d2 = 3 * N" using length_set_slice3 [OF d2] ld1 by simp
  obtain d3 where d3: "set_slice3 2 ?v2 d2 = Inr d3"
    using ld2 by (simp add: set_slice3_same slice3_len_packed)
  have ld3: "length d3 = 3 * N" using length_set_slice3 [OF d3] ld2 by simp
  have nth3: "d3 ! j = field_entry ?m v ?xs j" if j: "j < 3 * N" for j
  proof -
    have e3: "d3 ! j = (if j mod 3 = 2 then ?v2 ! (j div 3) else d2 ! j)"
      using nth_set_slice3 [OF d3, of j] ld2 j by (simp add: slice3_len_packed)
    have e2: "d2 ! j = (if j mod 3 = 1 then ?v1 ! (j div 3) else d1 ! j)"
      using nth_set_slice3 [OF d2, of j] ld1 j by (simp add: slice3_len_packed)
    have e1: "d1 ! j = (if j mod 3 = 0 then ?v0 ! (j div 3) else 0)"
      using nth_set_slice3 [OF d1, of j] j by (simp add: slice3_len_packed)
    have i: "j div 3 < N" using j by simp
    consider "j mod 3 = 0" | "j mod 3 = 1" | "j mod 3 = 2"
      by arith
    then show ?thesis
    proof cases
      case 1
      then have "3 * (j div 3) = j" by presburger
      with 1 show ?thesis using e3 e2 e1 i by simp
    next
      case 2
      then have "3 * (j div 3) + 1 = j" by presburger
      with 2 show ?thesis using e3 e2 e1 i by simp
    next
      case 3
      then have "3 * (j div 3) + 2 = j" by presburger
      with 3 show ?thesis using e3 e2 e1 i by simp
    qed
  qed
  have out: "d3 = map (field_entry ?m v ?xs) [0 ..< 3 * N]"
    by (rule nth_equalityI) (simp_all add: ld3 nth3)
  have w0: "np_zeros (length ?xs) w = (length (arrays w), w \<lparr> arrays := arrays w @ [?d0] \<rparr>)"
    by (simp add: np_zeros_def len)
  have rd: "(arrays w @ [d]) ! X = ?xs" for d
    using X by (simp add: nth_append)
  let ?dX = "length (arrays w)"
  let ?w0 = "w \<lparr> arrays := arrays w @ [?d0] \<rparr>"
  let ?w1 = "w \<lparr> arrays := arrays w @ [d1] \<rparr>"
  let ?w2 = "w \<lparr> arrays := arrays w @ [d2] \<rparr>"
  let ?w3 = "w \<lparr> arrays := arrays w @ [d3] \<rparr>"
  have s1: "assign_slice3 ?dX 0 (rhs_x (model ?w0) (arrays ?w0 ! X) t) ?w0 = (?w1, Inr ())"
    using assign_slice3_fresh [OF d1, of w] by (simp add: rd v0)
  have s2: "assign_slice3 ?dX 1 (rhs_y (model ?w1) (arrays ?w1 ! X)) ?w1 = (?w2, Inr ())"
    using assign_slice3_fresh [OF d2, of w] by (simp add: rd v1)
  have s3: "assign_slice3 ?dX 2 (rhs_z (model ?w2) (arrays ?w2 ! X)) ?w2 = (?w3, Inr ())"
    using assign_slice3_fresh [OF d3, of w] by (simp add: rd v2)
  show ?thesis
    unfolding equation_def w0
    by (simp only: and_then_def s1 s2 s3 prod.case sum.case return_addr_def Let_def out)
qed

lemma equation_unfold:
  assumes X: "X < length (arrays w)"
  shows "equation w X t =
    (let xs = arrays w ! X; m = model w; d0 = replicate (length xs) 0
     in case rhs_x m xs t of
          Inl e \<Rightarrow> (w \<lparr> arrays := arrays w @ [d0] \<rparr>, Inl e)
        | Inr v0 \<Rightarrow>
       (case set_slice3 0 v0 d0 of
          Inl e \<Rightarrow> (w \<lparr> arrays := arrays w @ [d0] \<rparr>, Inl e)
        | Inr d1 \<Rightarrow>
       (case rhs_y m xs of
          Inl e \<Rightarrow> (w \<lparr> arrays := arrays w @ [d1] \<rparr>, Inl e)
        | Inr v1 \<Rightarrow>
       (case set_slice3 1 v1 d1 of
          Inl e \<Rightarrow> (w \<lparr> arrays := arrays w @ [d1] \<rparr>, Inl e)
        | Inr d2 \<Rightarrow>
       (case rhs_z m xs of
          Inl e \<Rightarrow> (w \<lparr> arrays := arrays w @ [d2] \<rparr>, Inl e)
        | Inr v2 \<Rightarrow>
       (case set_slice3 2 v2 d2 of
          Inl e \<Rightarrow> (w \<lparr> arrays := arrays w @ [d2] \<rparr>, Inl e)
        | Inr d3 \<Rightarrow> (w \<lparr> arrays := arrays w @ [d3] \<rparr>, Inr (length (arrays w)))))))))"
  using X
  by (simp add: equation_def np_zeros_def and_then_def assign_slice3_def return_addr_def
      nth_append Let_def split: sum.splits)

lemma equation_frame:
  assumes X: "X < length (arrays w)" and eq: "equation w X t = (w', r)"
  shows "\<exists>d. w' = w \<lparr> arrays := arrays w @ [d] \<rparr> \<and> length d = length (arrays w ! X)"
    and "r = Inr a \<Longrightarrow> a = length (arrays w)"
  using eq unfolding equation_unfold [OF X] Let_def
  by (auto split: sum.splits dest!: length_set_slice3)

lemma np_binop_len:
  "np_binop f xs ys = Inr zs \<Longrightarrow> broadcast_len (length xs) (length ys) = Some (length zs)"
  by (drule np_binop_Inr) (auto simp: broadcast_len_def)

lemma rhs_x_shape:
  assumes "rhs_x self X t = Inr v"
  shows "\<exists>s1. broadcast_len (slice3_len 1 (length X)) (slice3_len 2 (length X)) = Some s1 \<and>
              broadcast_len s1 (slice3_len 0 (length X)) = Some (length v)"
  using assms
  by (auto simp: rhs_x_def ebind_eq_Inr np_sub_def np_neg_def np_sq_def np_smul_def np_adds_def
      dest!: np_binop_len)

lemma rhs_y_shape:
  assumes "rhs_y self X = Inr v"
  shows "\<exists>s1 s2 s3.
           broadcast_len (slice3_len 0 (length X)) (slice3_len 1 (length X)) = Some s1 \<and>
           broadcast_len (slice3_len 0 (length X)) (slice3_len 2 (length X)) = Some s2 \<and>
           broadcast_len s1 s2 = Some s3 \<and>
           broadcast_len s3 (slice3_len 1 (length X)) = Some (length v)"
  using assms
  by (auto simp: rhs_y_def ebind_eq_Inr np_sub_def np_mul_def np_smul_def np_adds_def
      dest!: np_binop_len)

lemma rhs_z_shape:
  assumes "rhs_z self X = Inr v"
  shows "\<exists>s1 s2 s3.
           broadcast_len (slice3_len 0 (length X)) (slice3_len 2 (length X)) = Some s1 \<and>
           broadcast_len (slice3_len 0 (length X)) (slice3_len 1 (length X)) = Some s2 \<and>
           broadcast_len s1 s2 = Some s3 \<and>
           broadcast_len s3 (slice3_len 2 (length X)) = Some (length v)"
  using assms
  by (auto simp: rhs_z_def ebind_eq_Inr np_sub_def np_mul_def np_add_def np_smul_def
      dest!: np_binop_len)

lemma rhs_x_Inl: "rhs_x self X t = Inl e \<Longrightarrow> e = ValueError \<or> call_F self t = Inl e"
  by (auto simp: rhs_x_def ebind_eq_Inl np_sub_def dest: np_binop_Inl)

lemma rhs_y_Inl: "rhs_y self X = Inl e \<Longrightarrow> e = ValueError"
  by (auto simp: rhs_y_def ebind_eq_Inl np_sub_def np_mul_def dest: np_binop_Inl)

lemma rhs_z_Inl: "rhs_z self X = Inl e \<Longrightarrow> e = ValueError"
  by (auto simp: rhs_z_def ebind_eq_Inl np_sub_def np_mul_def np_add_def dest: np_binop_Inl)

lemma equation_Inl:
  assumes X: "X < length (arrays w)" and eq: "equation w X t = (w', Inl e)"
  shows "e = ValueError \<or> call_F (model w) t = Inl e"
  using eq unfolding equation_unfold [OF X] Let_def
  by (auto split: sum.splits dest: rhs_x_Inl rhs_y_Inl rhs_z_Inl set_slice3_Inl)

text \<open>The three assignments all go through for no length but a multiple of three.\<close>

lemma shapes_packed:
  fixes n :: nat
  assumes "broadcast_len ((n + 1) div 3) (n div 3) = Some s1"
    and "broadcast_len s1 ((n + 2) div 3) = Some l0"
    and "l0 = (n + 2) div 3 \<or> l0 = 1"
    and "broadcast_len ((n + 2) div 3) ((n + 1) div 3) = Some p1"
    and "broadcast_len ((n + 2) div 3) (n div 3) = Some p2"
    and "broadcast_len p1 p2 = Some p3"
    and "broadcast_len p3 ((n + 1) div 3) = Some l1"
    and "l1 = (n + 1) div 3 \<or> l1 = 1"
    and "broadcast_len p2 p1 = Some q3"
    and "broadcast_len q3 (n div 3) = Some l2"
    and "l2 = n div 3 \<or> l2 = 1"
  shows "n mod 3 = 0"
proof -
  consider "n mod 3 = 0" | "n mod 3 = 1" | "n mod 3 = 2" by arith
  then show ?thesis
  proof cases
    case 1
    then show ?thesis .
  next
    case 2
    define k where "k = n div 3"
    have n: "n = 3 * k + 1" using 2 unfolding k_def by presburger
    have L: "(n + 2) div 3 = k + 1" "(n + 1) div 3 = k" "n div 3 = k"
      unfolding n by presburger+
    show ?thesis
      using assms unfolding L
      by (auto simp: broadcast_len_def split: if_splits)
  next
    case 3
    define k where "k = n div 3"
    have n: "n = 3 * k + 2" using 3 unfolding k_def by presburger
    have L: "(n + 2) div 3 = k + 1" "(n + 1) div 3 = k + 1" "n div 3 = k"
      unfolding n by presburger+
    show ?thesis
      using assms unfolding L
      by (auto simp: broadcast_len_def split: if_splits)
  qed
qed

lemma slice3_len_1_num: "slice3_len 1 n = (n + 1) div 3"
  by (cases n) (simp_all add: slice3_len_def)

lemma equation_Inr_shape:
  assumes X: "X < length (arrays w)" and eq: "equation w X t = (w', Inr a)"
  shows "length (arrays w ! X) mod 3 = 0"
proof -
  let ?xs = "arrays w ! X"
  let ?n = "length ?xs"
  let ?d0 = "replicate ?n (0::real)"
  from eq obtain v0 d1 v1 d2 v2 d3 where
    v0: "rhs_x (model w) ?xs t = Inr v0" and d1: "set_slice3 0 v0 ?d0 = Inr d1" and
    v1: "rhs_y (model w) ?xs = Inr v1" and d2: "set_slice3 1 v1 d1 = Inr d2" and
    v2: "rhs_z (model w) ?xs = Inr v2" and d3: "set_slice3 2 v2 d2 = Inr d3"
    unfolding equation_unfold [OF X] Let_def by (auto split: sum.splits)
  have ld1: "length d1 = ?n" using length_set_slice3 [OF d1] by simp
  have ld2: "length d2 = ?n" using length_set_slice3 [OF d2] ld1 by simp
  have a0: "length v0 = (?n + 2) div 3 \<or> length v0 = 1"
    using set_slice3_Inr [OF d1] by (simp add: slice3_len_0)
  have a1: "length v1 = (?n + 1) div 3 \<or> length v1 = 1"
    using set_slice3_Inr [OF d2] ld1 by (simp add: slice3_len_1)
  have a2: "length v2 = ?n div 3 \<or> length v2 = 1"
    using set_slice3_Inr [OF d3] ld2 by (simp add: slice3_len_2)
  from rhs_x_shape [OF v0] obtain s1 where
    x1: "broadcast_len ((?n + 1) div 3) (?n div 3) = Some s1" and
    x2: "broadcast_len s1 ((?n + 2) div 3) = Some (length v0)"
    unfolding slice3_len_0 slice3_len_1_num slice3_len_2 by blast
  from rhs_y_shape [OF v1] obtain p1 p2 p3 where
    y1: "broadcast_len ((?n + 2) div 3) ((?n + 1) div 3) = Some p1" and
    y2: "broadcast_len ((?n + 2) div 3) (?n div 3) = Some p2" and
    y3: "broadcast_len p1 p2 = Some p3" and
    y4: "broadcast_len p3 ((?n + 1) div 3) = Some (length v1)"
    unfolding slice3_len_0 slice3_len_1_num slice3_len_2 by blast
  from rhs_z_shape [OF v2] obtain q1 q2 q3 where
    z1: "broadcast_len ((?n + 2) div 3) (?n div 3) = Some q1" and
    z2: "broadcast_len ((?n + 2) div 3) ((?n + 1) div 3) = Some q2" and
    z3: "broadcast_len q1 q2 = Some q3" and
    z4: "broadcast_len q3 (?n div 3) = Some (length v2)"
    unfolding slice3_len_0 slice3_len_1_num slice3_len_2 by blast
  have "q1 = p2" "q2 = p1" using y1 y2 z1 z2 by simp_all
  with z3 have z3': "broadcast_len p2 p1 = Some q3" by simp
  show ?thesis
    by (rule shapes_packed [OF x1 x2 a0 y1 y2 y3 y4 a1 z3' z4 a2])
qed

lemma equation_fails:
  assumes X: "X < length (arrays w)" and n: "length (arrays w ! X) mod 3 \<noteq> 0"
  shows "\<exists>e. snd (equation w X t) = Inl e \<and> (e = ValueError \<or> call_F (model w) t = Inl e)"
proof (cases "snd (equation w X t)")
  case (Inl e)
  then have "equation w X t = (fst (equation w X t), Inl e)"
    by (metis prod.collapse)
  from equation_Inl [OF X this] Inl show ?thesis by simp
next
  case (Inr a)
  then have "equation w X t = (fst (equation w X t), Inr a)"
    by (metis prod.collapse)
  from equation_Inr_shape [OF X this] n show ?thesis by simp
qed

lemma linear_before: "t < tcc_default \<Longrightarrow> TimeForcing_linear t tcc_default = Inr 0"
  by (simp add: TimeForcing_linear_def)

lemma linear_from:
  "tcc_default \<le> t \<Longrightarrow>
     TimeForcing_linear t tcc_default = Inr (- 2 * (t - tcc_default) / tcc_default)"
  by (simp add: TimeForcing_linear_def tcc_default_def)

text \<open>Rounding to binary64 and the operations on doubles.\<close>

lemma expo_small: "\<bar>x\<bar> < 2 powr (- 1022) \<Longrightarrow> expo x = - 1022"
  by (simp add: expo_def)

lemma expo_normal:
  assumes "2 powr (- 1022) \<le> \<bar>x\<bar>"
  shows "2 powr of_int (expo x) \<le> \<bar>x\<bar>" and "\<bar>x\<bar> < 2 powr (of_int (expo x) + 1)"
    and "- 1022 \<le> expo x"
proof -
  have pos: "0 < \<bar>x\<bar>" using assms by (smt (verit) powr_gt_zero)
  have e: "expo x = \<lfloor>log 2 \<bar>x\<bar>\<rfloor>" using assms by (simp add: expo_def)
  from floor_log_eq_powr_iff [of "\<bar>x\<bar>" 2 "expo x"] pos e
  show b1: "2 powr of_int (expo x) \<le> \<bar>x\<bar>" and "\<bar>x\<bar> < 2 powr (of_int (expo x) + 1)"
    by simp_all
  have "log 2 (2 powr (- 1022)) \<le> log 2 \<bar>x\<bar>"
    using assms pos by (intro log_mono) simp_all
  then have "- 1022 \<le> log 2 \<bar>x\<bar>" by simp
  then have "- 1022 \<le> \<lfloor>log 2 \<bar>x\<bar>\<rfloor>" by linarith
  with e show "- 1022 \<le> expo x" by simp
qed

lemma expo_ge: "- 1022 \<le> expo x"
  by (cases "\<bar>x\<bar> < 2 powr (- 1022)") (simp_all add: expo_small expo_normal(3))

lemma expo_upper: "\<bar>x\<bar> < 2 powr (of_int (expo x) + 1)"
proof (cases "\<bar>x\<bar> < 2 powr (- 1022)")
  case True
  have "(2::real) powr (- 1022) \<le> 2 powr (- 1022 + 1)" by (intro powr_mono) simp_all
  with True have "\<bar>x\<bar> < 2 powr (- 1022 + 1)" by linarith
  then show ?thesis using True by (simp add: expo_small)
next
  case False
  then show ?thesis using expo_normal(2) [of x] by simp
qed

lemma expo_lower: "- 1022 < expo x \<Longrightarrow> 2 powr of_int (expo x) \<le> \<bar>x\<bar>"
  by (cases "\<bar>x\<bar> < 2 powr (- 1022)") (simp_all add: expo_small expo_normal(1))

lemma expo_eqI:
  assumes "2 powr of_int k \<le> \<bar>x\<bar>" and "\<bar>x\<bar> < 2 powr (of_int k + 1)" and "- 1022 \<le> k"
  shows "expo x = k"
proof -
  have "(2::real) powr (- 1022) \<le> 2 powr of_int k"
    using assms(3) by (intro powr_mono) simp_all
  with assms(1) have n: "2 powr (- 1022) \<le> \<bar>x\<bar>" by linarith
  then have pos: "0 < \<bar>x\<bar>" by (smt (verit) powr_gt_zero)
  from floor_log_eq_powr_iff [of "\<bar>x\<bar>" 2 k] pos assms
  have "\<lfloor>log 2 \<bar>x\<bar>\<rfloor> = k" by simp
  with n show ?thesis by (simp add: expo_def)
qed

lemma expo_mono:
  assumes "\<bar>x\<bar> \<le> \<bar>y\<bar>"
  shows "expo x \<le> expo y"
proof (cases "\<bar>x\<bar> < 2 powr (- 1022)")
  case True
  then show ?thesis by (simp add: expo_small expo_ge)
next
  case False
  then have nx: "2 powr (- 1022) \<le> \<bar>x\<bar>" by simp
  with assms have ny: "2 powr (- 1022) \<le> \<bar>y\<bar>" by simp
  have pos: "0 < \<bar>x\<bar>" using nx by (smt (verit) powr_gt_zero)
  have "log 2 \<bar>x\<bar> \<le> log 2 \<bar>y\<bar>" using pos assms by (intro log_mono) simp_all
  then have "\<lfloor>log 2 \<bar>x\<bar>\<rfloor> \<le> \<lfloor>log 2 \<bar>y\<bar>\<rfloor>" by (rule floor_mono)
  with nx ny show ?thesis by (simp add: expo_def)
qed

lemma rhe_of_int [simp]: "round_half_even (of_int n) = n"
  by (simp add: round_half_even_def)

lemma rhe_bounds: "\<lfloor>m\<rfloor> \<le> round_half_even m" "round_half_even m \<le> \<lfloor>m\<rfloor> + 1"
  by (simp_all add: round_half_even_def Let_def)

lemma rhe_mono:
  assumes "m \<le> m'"
  shows "round_half_even m \<le> round_half_even m'"
proof (cases "\<lfloor>m\<rfloor> = \<lfloor>m'\<rfloor>")
  case True
  with assms show ?thesis by (auto simp: round_half_even_def Let_def)
next
  case False
  with assms have "\<lfloor>m\<rfloor> < \<lfloor>m'\<rfloor>" using floor_mono [OF assms] by simp
  then have "\<lfloor>m\<rfloor> + 1 \<le> \<lfloor>m'\<rfloor>" by simp
  with rhe_bounds(2) [of m] rhe_bounds(1) [of m'] show ?thesis by linarith
qed

lemma rhe_nonneg: "0 \<le> m \<Longrightarrow> 0 \<le> round_half_even m"
  using rhe_mono [of 0 m] rhe_of_int [of 0] by simp

lemma quantum_pos: "0 < quantum x"
  by (simp add: quantum_def)

lemma quantum_times:
  "quantum x * 2 ^ 52 = 2 powr of_int (expo x)" "quantum x * 2 ^ 53 = 2 powr (of_int (expo x) + 1)"
proof -
  have a: "(2::real) ^ 52 = 2 powr 52" and b: "(2::real) ^ 53 = 2 powr 53" by simp_all
  show "quantum x * 2 ^ 52 = 2 powr of_int (expo x)"
    unfolding a quantum_def powr_add [symmetric] by simp
  show "quantum x * 2 ^ 53 = 2 powr (of_int (expo x) + 1)"
    unfolding b quantum_def powr_add [symmetric] by (simp add: add.commute)
qed

lemma round_mag_nonneg: "0 \<le> round_mag x"
proof -
  have "0 \<le> \<bar>x\<bar> / quantum x" using quantum_pos [of x] by simp
  from rhe_nonneg [OF this] show ?thesis
    using quantum_pos [of x] by (simp add: round_mag_def)
qed

lemma round_mag_zero [simp]: "round_mag 0 = 0"
  using rhe_of_int [of 0] by (simp add: round_mag_def)

lemma round_mag_upper: "round_mag x \<le> 2 powr (of_int (expo x) + 1)"
proof -
  have "\<bar>x\<bar> / quantum x \<le> 2 ^ 53"
    using expo_upper [of x] quantum_pos [of x] quantum_times(2) [of x]
    by (simp add: field_simps)
  then have "\<bar>x\<bar> / quantum x \<le> of_int (2 ^ 53)" by simp
  from rhe_mono [OF this] have "round_half_even (\<bar>x\<bar> / quantum x) \<le> 2 ^ 53"
    unfolding rhe_of_int by simp
  then have "of_int (round_half_even (\<bar>x\<bar> / quantum x)) \<le> (2 ^ 53 :: real)"
    by (metis of_int_le_iff of_int_numeral of_int_power)
  then have "round_mag x \<le> 2 ^ 53 * quantum x"
    unfolding round_mag_def using quantum_pos [of x] by (simp add: mult_right_mono)
  then show ?thesis using quantum_times(2) [of x] by (simp add: mult.commute)
qed

lemma round_mag_lower:
  assumes "2 powr of_int (expo x) \<le> \<bar>x\<bar>"
  shows "2 powr of_int (expo x) \<le> round_mag x"
proof -
  have "2 ^ 52 \<le> \<bar>x\<bar> / quantum x"
    using assms quantum_pos [of x] quantum_times(1) [of x]
    by (simp add: field_simps)
  then have "of_int (2 ^ 52) \<le> \<bar>x\<bar> / quantum x" by simp
  from rhe_mono [OF this] have "2 ^ 52 \<le> round_half_even (\<bar>x\<bar> / quantum x)"
    unfolding rhe_of_int by simp
  then have "(2 ^ 52 :: real) \<le> of_int (round_half_even (\<bar>x\<bar> / quantum x))"
    by (metis of_int_le_iff of_int_numeral of_int_power)
  then have "2 ^ 52 * quantum x \<le> round_mag x"
    unfolding round_mag_def using quantum_pos [of x] by (simp add: mult_right_mono)
  then show ?thesis using quantum_times(1) [of x] by (simp add: mult.commute)
qed

lemma round_mag_mono:
  assumes "\<bar>x\<bar> \<le> \<bar>y\<bar>"
  shows "round_mag x \<le> round_mag y"
proof (cases "expo x = expo y")
  case True
  then have q: "quantum x = quantum y" by (simp add: quantum_def)
  have "\<bar>x\<bar> / quantum y \<le> \<bar>y\<bar> / quantum y"
    using assms quantum_pos [of y] by (simp add: divide_right_mono)
  from rhe_mono [OF this] show ?thesis
    unfolding round_mag_def q using quantum_pos [of y] by (simp add: mult_right_mono)
next
  case False
  with expo_mono [OF assms] have lt: "expo x < expo y" by simp
  with expo_ge [of x] have "- 1022 < expo y" by simp
  from round_mag_lower [OF expo_lower [OF this]]
  have l: "2 powr of_int (expo y) \<le> round_mag y" .
  have "of_int (expo x) + 1 \<le> (of_int (expo y) :: real)" using lt by simp
  then have "(2::real) powr (of_int (expo x) + 1) \<le> 2 powr of_int (expo y)"
    by (intro powr_mono) simp_all
  with round_mag_upper [of x] l show ?thesis by linarith
qed

lemma fl_mono:
  assumes "x \<le> y"
  shows "dle (fl x) (fl y)"
proof -
  consider "0 \<le> x" | "x < 0" "0 \<le> y" | "y < 0" using assms by linarith
  then show ?thesis
  proof cases
    case 1
    then have "\<bar>x\<bar> \<le> \<bar>y\<bar>" using assms by simp
    from round_mag_mono [OF this] 1 assms show ?thesis
      by (simp add: fl_def Let_def)
  next
    case 2
    then show ?thesis
      using round_mag_nonneg [of x] round_mag_nonneg [of y]
      by (simp add: fl_def Let_def)
  next
    case 3
    then have "\<bar>y\<bar> \<le> \<bar>x\<bar>" using assms by simp
    from round_mag_mono [OF this] 3 assms show ?thesis
      by (simp add: fl_def Let_def)
  qed
qed

lemma round_mag_eval:
  assumes "2 powr of_int k \<le> \<bar>x\<bar>" and "\<bar>x\<bar> < 2 powr (of_int k + 1)" and "- 1022 \<le> k"
  shows "round_mag x = of_int (round_half_even (\<bar>x\<bar> / 2 powr of_int (k - 52))) * 2 powr of_int (k - 52)"
  using expo_eqI [OF assms] by (simp add: round_mag_def quantum_def)

lemma round_mag_no_overflow:
  assumes "expo x < 1023"
  shows "round_mag x < 2 powr 1024"
proof -
  have "of_int (expo x) + 1 \<le> (1023::real)" using assms by linarith
  then have "(2::real) powr (of_int (expo x) + 1) \<le> 2 powr 1023"
    by (intro powr_mono) simp_all
  moreover have "(2::real) powr 1023 < 2 powr 1024"
    by (intro powr_less_mono) simp_all
  ultimately show ?thesis using round_mag_upper [of x] by linarith
qed

lemma fl_eval:
  assumes "2 powr of_int k \<le> \<bar>x\<bar>" and "\<bar>x\<bar> < 2 powr (of_int k + 1)"
    and "- 1022 \<le> k" and "k < 1023"
    and "round_half_even (\<bar>x\<bar> / 2 powr of_int (k - 52)) = n"
  shows "fl x = Finite (if x < 0 then - (of_int n * 2 powr of_int (k - 52))
                        else of_int n * 2 powr of_int (k - 52))"
proof -
  have e: "expo x = k" by (rule expo_eqI [OF assms(1-3)])
  have "\<not> 2 powr 1024 \<le> round_mag x"
    using round_mag_no_overflow [of x] assms(4) e by simp
  then show ?thesis
    unfolding fl_def Let_def round_mag_eval [OF assms(1-3)] assms(5) by simp
qed

lemma fl_zero [simp]: "fl 0 = Finite 0"
  by (simp add: fl_def)

lemma fl_not_NaN [simp]: "fl x \<noteq> NaN"
  by (simp add: fl_def Let_def)

lemma dle_PInf [simp]: "dle d PInf \<longleftrightarrow> d \<noteq> NaN"
  by (cases d) simp_all

lemma dle_NInf [simp]: "dle NInf d \<longleftrightarrow> d \<noteq> NaN"
  by (cases d) simp_all

lemma dle_not_NaN: "dle x y \<Longrightarrow> x \<noteq> NaN \<and> y \<noteq> NaN"
  by (cases x; cases y) simp_all

lemma dlt_imp_dle: "dlt x y \<Longrightarrow> dle x y"
  by (cases x; cases y) simp_all

lemma dle_trans: "dle x y \<Longrightarrow> dle y z \<Longrightarrow> dle x z"
  by (cases x; cases y; cases z) simp_all

lemma dle_dlt_trans: "dle x y \<Longrightarrow> dlt y z \<Longrightarrow> dlt x z"
  by (cases x; cases y; cases z) simp_all

lemma dsub_mono: "dle x y \<Longrightarrow> dle (dsub x (Finite c)) (dsub y (Finite c))"
  by (cases x; cases y) (simp_all add: fl_mono)

lemma dmul_neg2_antimono:
  "dle x y \<Longrightarrow> dle (dmul (Finite (- 2)) y) (dmul (Finite (- 2)) x)"
  by (cases x; cases y) (simp_all add: fl_mono)

lemma ddiv_pos_mono:
  assumes "0 < c" and "dle x y"
  shows "\<exists>u v. ddiv x (Finite c) = Inr u \<and> ddiv y (Finite c) = Inr v \<and> dle u v"
  using assms by (cases x; cases y) (simp_all add: fl_mono divide_right_mono)

text \<open>The forcing after the start time, as a function on doubles, never increases.\<close>

lemma ramp_double_antimono:
  assumes "0 < c" and "dle x y"
  shows "\<exists>u v. ddiv (dmul (Finite (- 2)) (dsub x (Finite c))) (Finite c) = Inr u \<and>
               ddiv (dmul (Finite (- 2)) (dsub y (Finite c))) (Finite c) = Inr v \<and> dle v u"
  using ddiv_pos_mono [OF assms(1) dmul_neg2_antimono [OF dsub_mono [OF assms(2)]]]
  by blast

lemma is_double_magnitude:
  assumes "fl r = Finite r" and "0 < r"
  shows "r = of_int (round_half_even (r / quantum r)) * quantum r"
  using assms by (simp add: fl_def Let_def round_mag_def split: if_splits)

text \<open>The least double above 7300 is \<open>7300 + 2\<^sup>-\<^sup>4\<^sup>0\<close>.\<close>

lemma double_above_7300:
  assumes d: "fl r = Finite r" and r: "7300 < r"
  shows "7300 + 1 / 2 ^ 40 \<le> r"
proof -
  have e4096: "expo 4096 = 12"
    by (rule expo_eqI) (simp_all add: powr_minus)
  have "expo 4096 \<le> expo r" by (rule expo_mono) (use r in simp)
  with e4096 have ge: "12 \<le> expo r" by simp
  show ?thesis
  proof (cases "expo r = 12")
    case True
    then have q: "quantum r = 1 / 2 ^ 40" by (simp add: quantum_def powr_minus divide_simps)
    define n where "n = round_half_even (r / quantum r)"
    have rn: "r = of_int n / 2 ^ 40"
      using is_double_magnitude [OF d] r unfolding n_def q by simp
    with r have "7300 * 2 ^ 40 < (of_int n :: real)" by (simp add: field_simps)
    then have "(of_int (7300 * 2 ^ 40) :: real) < of_int n" by simp
    then have "7300 * 2 ^ 40 < n" by (simp only: of_int_less_iff)
    then have "7300 * 2 ^ 40 + 1 \<le> n" by simp
    then have "(of_int (7300 * 2 ^ 40 + 1) :: real) \<le> of_int n" by (simp only: of_int_le_iff)
    then show ?thesis unfolding rn by (simp add: field_simps)
  next
    case False
    with ge have g: "13 \<le> expo r" by simp
    then have "- 1022 < expo r" by simp
    from expo_lower [OF this] have l: "2 powr of_int (expo r) \<le> \<bar>r\<bar>" .
    have "(13::real) \<le> of_int (expo r)" using g by simp
    then have "(2::real) powr 13 \<le> 2 powr of_int (expo r)" by (intro powr_mono) simp_all
    with l have "2 powr 13 \<le> \<bar>r\<bar>" by linarith
    then have "8192 \<le> r" using r by simp
    then show ?thesis by simp
  qed
qed

lemma fl_7300_gap: "fl (1 / 2 ^ 40) = Finite (1 / 2 ^ 40)"
  by (rule fl_eval [where k = "- 40" and n = "2 ^ 52", THEN trans])
     (simp_all add: powr_minus round_half_even_def divide_simps)

lemma fl_gap_twice: "fl (- 2 * (1 / 2 ^ 40)) = Finite (- 1 / 2 ^ 39)"
  by (rule fl_eval [where k = "- 39" and n = "2 ^ 52", THEN trans])
     (simp_all add: powr_minus round_half_even_def divide_simps)

lemma fl_gap_ramp: "fl (- 1 / 2 ^ 39 / 7300) = Finite (- 2526951242973911 / 2 ^ 103)"
  by (rule fl_eval [where k = "- 52" and n = "5053902485947822", THEN trans])
     (simp_all add: powr_minus round_half_even_def divide_simps)

lemma dle_not_dlt: "dle x y \<Longrightarrow> \<not> dlt y x"
  by (cases x; cases y) simp_all

lemma dle_negative: "dle v (Finite c) \<Longrightarrow> c < 0 \<Longrightarrow> dlt v (Finite 0)"
  by (cases v) simp_all

lemma linear_double_from:
  assumes "dle tcc_default_double t"
  shows "TimeForcing_linear_double t tcc_default_double
         = ddiv (dmul (Finite (- 2)) (dsub t tcc_default_double)) tcc_default_double"
  using dle_not_dlt [OF assms] by (simp add: TimeForcing_linear_double_def)

lemma linear_double_gap:
  "ddiv (dmul (Finite (- 2)) (dsub (Finite (7300 + 1 / 2 ^ 40)) (Finite 7300))) (Finite 7300)
     = Inr (Finite (- 2526951242973911 / 2 ^ 103))"
  using fl_7300_gap fl_gap_twice fl_gap_ramp by simp

lemma linear_double_negative:
  assumes t: "is_double t" and gt: "dlt tcc_default_double t"
  shows "\<exists>v. TimeForcing_linear_double t tcc_default_double = Inr v \<and> dlt v (Finite 0)"
proof -
  have "dle (Finite (7300 + 1 / 2 ^ 40)) t"
  proof (cases t)
    case (Finite b)
    with t gt have "fl b = Finite b" "7300 < b" by (simp_all add: tcc_default_double_def)
    from double_above_7300 [OF this] Finite show ?thesis by simp
  qed (use gt in \<open>simp_all add: tcc_default_double_def\<close>)
  from ramp_double_antimono [OF _ this, of 7300] obtain v where
    v: "ddiv (dmul (Finite (- 2)) (dsub t (Finite 7300))) (Finite 7300) = Inr v"
    and le: "dle v (Finite (- 2526951242973911 / 2 ^ 103))"
    unfolding linear_double_gap by auto
  have "TimeForcing_linear_double t tcc_default_double = Inr v"
    using linear_double_from [OF dlt_imp_dle [OF gt]] v by (simp add: tcc_default_double_def)
  moreover have "dlt v (Finite 0)" by (rule dle_negative [OF le]) simp
  ultimately show ?thesis by blast
qed

lemma double_1e6_1: "fl (1000000 + 1 / 2 ^ 33) = Finite (1000000 + 1 / 2 ^ 33)"
  by (rule fl_eval [where k = 19 and n = "1000000 * 2 ^ 33 + 1", THEN trans])
     (simp_all add: powr_minus round_half_even_def divide_simps)

lemma double_1e6_2: "fl (1000000 + 1 / 2 ^ 32) = Finite (1000000 + 1 / 2 ^ 32)"
  by (rule fl_eval [where k = 19 and n = "1000000 * 2 ^ 33 + 2", THEN trans])
     (simp_all add: powr_minus round_half_even_def divide_simps)

lemma dsub_1e6_1: "dsub (Finite (1000000 + 1 / 2 ^ 33)) (Finite 7300) = Finite (992700 + 1 / 2 ^ 33)"
  unfolding dsub.simps
  by (rule fl_eval [where k = 19 and n = "992700 * 2 ^ 33 + 1", THEN trans])
     (simp_all add: powr_minus round_half_even_def divide_simps)

lemma dsub_1e6_2: "dsub (Finite (1000000 + 1 / 2 ^ 32)) (Finite 7300) = Finite (992700 + 1 / 2 ^ 32)"
  unfolding dsub.simps
  by (rule fl_eval [where k = 19 and n = "992700 * 2 ^ 33 + 2", THEN trans])
     (simp_all add: powr_minus round_half_even_def divide_simps)

lemma dmul_1e6_1: "dmul (Finite (- 2)) (Finite (992700 + 1 / 2 ^ 33)) = Finite (- (1985400 + 1 / 2 ^ 32))"
  unfolding dmul.simps
  by (rule fl_eval [where k = 20 and n = "1985400 * 2 ^ 32 + 1", THEN trans])
     (simp_all add: powr_minus round_half_even_def divide_simps)

lemma dmul_1e6_2: "dmul (Finite (- 2)) (Finite (992700 + 1 / 2 ^ 32)) = Finite (- (1985400 + 1 / 2 ^ 31))"
  unfolding dmul.simps
  by (rule fl_eval [where k = 20 and n = "1985400 * 2 ^ 32 + 2", THEN trans])
     (simp_all add: powr_minus round_half_even_def divide_simps)

lemma ddiv_Finite: "b \<noteq> 0 \<Longrightarrow> ddiv (Finite a) (Finite b) = Inr (fl (a / b))"
  by simp

lemma tcc_default_double_eq: "tcc_default_double = Finite 7300"
  by (simp add: tcc_default_double_def)

lemma ddiv_1e6_1:
  "ddiv (Finite (- (1985400 + 1 / 2 ^ 32))) (Finite 7300)
     = Inr (Finite (- 2392296313190653 / 2 ^ 43))"
proof -
  have "fl (- (1985400 + 1 / 2 ^ 32) / 7300) = Finite (- 2392296313190653 / 2 ^ 43)"
    by (rule fl_eval [where k = 8 and n = "4784592626381306", THEN trans])
       (simp_all add: powr_minus round_half_even_def divide_simps)
  moreover have "ddiv (Finite (- (1985400 + 1 / 2 ^ 32))) (Finite 7300)
     = Inr (fl (- (1985400 + 1 / 2 ^ 32) / 7300))"
    by (rule ddiv_Finite) simp
  ultimately show ?thesis by (simp only:)
qed

lemma ddiv_1e6_2:
  "ddiv (Finite (- (1985400 + 1 / 2 ^ 31))) (Finite 7300)
     = Inr (Finite (- 2392296313190653 / 2 ^ 43))"
proof -
  have "fl (- (1985400 + 1 / 2 ^ 31) / 7300) = Finite (- 2392296313190653 / 2 ^ 43)"
    by (rule fl_eval [where k = 8 and n = "4784592626381306", THEN trans])
       (simp_all add: powr_minus round_half_even_def divide_simps)
  moreover have "ddiv (Finite (- (1985400 + 1 / 2 ^ 31))) (Finite 7300)
     = Inr (fl (- (1985400 + 1 / 2 ^ 31) / 7300))"
    by (rule ddiv_Finite) simp
  ultimately show ?thesis by (simp only:)
qed

lemma linear_double_else:
  "\<not> dlt t tcc \<Longrightarrow>
     TimeForcing_linear_double t tcc = ddiv (dmul (Finite (- 2)) (dsub t tcc)) tcc"
  by (simp only: TimeForcing_linear_double_def if_False)

lemma double_8030: "fl 8030 = Finite 8030"
  by (rule fl_eval [where k = 12 and n = "8030 * 2 ^ 40", THEN trans])
     (simp_all add: powr_minus round_half_even_def divide_simps)

lemma double_7665: "fl 7665 = Finite 7665"
  by (rule fl_eval [where k = 12 and n = "7665 * 2 ^ 40", THEN trans])
     (simp_all add: powr_minus round_half_even_def divide_simps)

lemma dsub_8030: "dsub (Finite 8030) (Finite 7300) = Finite 730"
  unfolding dsub.simps
  by (rule fl_eval [where k = 9 and n = "730 * 2 ^ 43", THEN trans])
     (simp_all add: powr_minus round_half_even_def divide_simps)

lemma dsub_7665: "dsub (Finite 7665) (Finite 7300) = Finite 365"
  unfolding dsub.simps
  by (rule fl_eval [where k = 8 and n = "365 * 2 ^ 44", THEN trans])
     (simp_all add: powr_minus round_half_even_def divide_simps)

lemma dmul_730: "dmul (Finite (- 2)) (Finite 730) = Finite (- 1460)"
  unfolding dmul.simps
  by (rule fl_eval [where k = 10 and n = "1460 * 2 ^ 42", THEN trans])
     (simp_all add: powr_minus round_half_even_def divide_simps)

lemma dmul_365: "dmul (Finite (- 2)) (Finite 365) = Finite (- 730)"
  unfolding dmul.simps
  by (rule fl_eval [where k = 9 and n = "730 * 2 ^ 43", THEN trans])
     (simp_all add: powr_minus round_half_even_def divide_simps)

lemma ddiv_1460: "ddiv (Finite (- 1460)) (Finite 7300) = Inr (Finite (- 3602879701896397 / 2 ^ 54))"
proof -
  have "fl (- 1460 / 7300) = Finite (- 3602879701896397 / 2 ^ 54)"
    by (rule fl_eval [where k = "- 3" and n = "7205759403792794", THEN trans])
       (simp_all add: powr_minus round_half_even_def divide_simps)
  moreover have "ddiv (Finite (- 1460)) (Finite 7300) = Inr (fl (- 1460 / 7300))"
    by (rule ddiv_Finite) simp
  ultimately show ?thesis by (simp only:)
qed

lemma ddiv_730: "ddiv (Finite (- 730)) (Finite 7300) = Inr (Finite (- 3602879701896397 / 2 ^ 55))"
proof -
  have "fl (- 730 / 7300) = Finite (- 3602879701896397 / 2 ^ 55)"
    by (rule fl_eval [where k = "- 4" and n = "7205759403792794", THEN trans])
       (simp_all add: powr_minus round_half_even_def divide_simps)
  moreover have "ddiv (Finite (- 730)) (Finite 7300) = Inr (fl (- 730 / 7300))"
    by (rule ddiv_Finite) simp
  ultimately show ?thesis by (simp only:)
qed

section \<open>The forcings\<close>

text \<open>
  Over the real numbers \<^verbatim>\<open>TimeForcing.cyclic\<close> is \<open>9.5 + 2 sin (2 \<pi> t / 73)\<close> and has
  period 73. The program evaluates it in doubles through \<^verbatim>\<open>np.sin\<close> and \<^verbatim>\<open>np.pi\<close>, whose
  rounding is the platform's and is not modelled: there the values at \<open>t\<close> and \<open>t + 73\<close>
  agree up to rounding only, so claim C9 is not stated of the values the program computes.
\<close>

lemma cyclic_periodic_real:
  "TimeForcing_cyclic t = 9.5 + 2 * sin (2 * pi * t / 73) \<and>
   TimeForcing_cyclic (t + 73) = TimeForcing_cyclic t"
proof -
  have e: "(t + 73) * 2 * pi / 73 = t * 2 * pi / 73 + 2 * pi"
    by (simp add: field_simps)
  have p: "sin ((t + 73) * 2 * pi / 73) = sin (t * 2 * pi / 73)"
    unfolding e by (rule sin_periodic)
  have c: "t * 2 * pi / 73 = 2 * pi * t / 73"
    by (simp add: mult.commute mult.left_commute)
  show ?thesis
    unfolding TimeForcing_cyclic_def p unfolding c by simp
qed

text \<open>
  Claim C8, as the program has it on doubles. With the default start time
  \<open>100 * 73 = 7300\<close>, \<^verbatim>\<open>TimeForcing.linear\<close> returns 0 at every \<open>t\<close> before the start time and
  at the start time; at every double \<open>t\<close> after it, it returns \<^verbatim>\<open>-2 * (t - tcc) / tcc\<close>
  with each operation rounded, which is negative, and from the start time on it never
  increases. It is not strictly decreasing: the last of the three theorems below is a run
  at two neighbouring doubles near \<open>10\<^sup>6\<close> that give the same value.
\<close>

theorem linear_double_default:
  assumes "is_double t"
  shows "tcc_default_double = Finite 7300 \<and>
    (dlt t tcc_default_double \<longrightarrow>
       TimeForcing_linear_double t tcc_default_double = Inr (Finite 0)) \<and>
    TimeForcing_linear_double tcc_default_double tcc_default_double = Inr (Finite 0) \<and>
    (dlt tcc_default_double t \<longrightarrow>
       TimeForcing_linear_double t tcc_default_double
         = ddiv (dmul (Finite (- 2)) (dsub t tcc_default_double)) tcc_default_double \<and>
       (\<exists>v. TimeForcing_linear_double t tcc_default_double = Inr v \<and> dlt v (Finite 0))) \<and>
    (dle tcc_default_double s \<and> dlt s t \<longrightarrow>
       (\<exists>u v. TimeForcing_linear_double s tcc_default_double = Inr u \<and>
              TimeForcing_linear_double t tcc_default_double = Inr v \<and> dle v u))"
proof (intro conjI impI)
  show "tcc_default_double = Finite 7300" by (simp add: tcc_default_double_def)
next
  assume "dlt t tcc_default_double"
  then show "TimeForcing_linear_double t tcc_default_double = Inr (Finite 0)"
    by (simp add: TimeForcing_linear_double_def)
next
  show "TimeForcing_linear_double tcc_default_double tcc_default_double = Inr (Finite 0)"
    by (simp add: TimeForcing_linear_double_def tcc_default_double_def)
next
  assume "dlt tcc_default_double t"
  then show "TimeForcing_linear_double t tcc_default_double
         = ddiv (dmul (Finite (- 2)) (dsub t tcc_default_double)) tcc_default_double"
    by (intro linear_double_from dlt_imp_dle)
next
  assume "dlt tcc_default_double t"
  with assms show "\<exists>v. TimeForcing_linear_double t tcc_default_double = Inr v \<and> dlt v (Finite 0)"
    by (rule linear_double_negative)
next
  assume a: "dle tcc_default_double s \<and> dlt s t"
  then have st: "dle s t" and Ds: "dle tcc_default_double s" by (simp_all add: dlt_imp_dle)
  from dle_trans [OF Ds st] have Dt: "dle tcc_default_double t" .
  from ramp_double_antimono [OF _ st, of 7300]
  show "\<exists>u v. TimeForcing_linear_double s tcc_default_double = Inr u \<and>
              TimeForcing_linear_double t tcc_default_double = Inr v \<and> dle v u"
    unfolding linear_double_from [OF Ds] linear_double_from [OF Dt]
    by (simp add: tcc_default_double_def)
qed

theorem linear_double_default_witness:
  "is_double (Finite 8030) \<and> is_double (Finite 0) \<and>
   dlt (Finite 0) tcc_default_double \<and>
   TimeForcing_linear_double (Finite 0) tcc_default_double = Inr (Finite 0) \<and>
   dlt tcc_default_double (Finite 8030) \<and>
   dle tcc_default_double (Finite 7665) \<and> dlt (Finite 7665) (Finite 8030) \<and>
   TimeForcing_linear_double (Finite 7665) tcc_default_double
     = Inr (Finite (- 3602879701896397 / 2 ^ 55)) \<and>
   TimeForcing_linear_double (Finite 8030) tcc_default_double
     = Inr (Finite (- 3602879701896397 / 2 ^ 54)) \<and>
   dle (Finite (- 3602879701896397 / 2 ^ 54)) (Finite (- 3602879701896397 / 2 ^ 55)) \<and>
   dlt (Finite (- 3602879701896397 / 2 ^ 54)) (Finite 0)"
proof -
  have h1: "is_double (Finite 8030)" and h0: "is_double (Finite 0)"
    by (simp_all only: is_double.simps double_8030 fl_zero)
  have n1: "\<not> dlt (Finite 8030) (Finite 7300)" and n2: "\<not> dlt (Finite 7665) (Finite 7300)"
    by simp_all
  have v1: "TimeForcing_linear_double (Finite 8030) tcc_default_double
     = Inr (Finite (- 3602879701896397 / 2 ^ 54))"
    by (simp only: tcc_default_double_eq linear_double_else [OF n1] dsub_8030 dmul_730 ddiv_1460)
  have v2: "TimeForcing_linear_double (Finite 7665) tcc_default_double
     = Inr (Finite (- 3602879701896397 / 2 ^ 55))"
    by (simp only: tcc_default_double_eq linear_double_else [OF n2] dsub_7665 dmul_365 ddiv_730)
  have c: "dlt (Finite 0) tcc_default_double" "dlt tcc_default_double (Finite 8030)"
    "dle tcc_default_double (Finite 7665) \<and> dlt (Finite 7665) (Finite 8030)"
    by (simp_all add: tcc_default_double_eq)
  from linear_double_default [OF h0, of "Finite 0"] c(1)
  have z: "TimeForcing_linear_double (Finite 0) tcc_default_double = Inr (Finite 0)"
    by blast
  from linear_double_default [OF h1, of "Finite 7665"] c(2,3)
  have "(\<exists>v. TimeForcing_linear_double (Finite 8030) tcc_default_double = Inr v \<and> dlt v (Finite 0))"
    and "\<exists>u v. TimeForcing_linear_double (Finite 7665) tcc_default_double = Inr u \<and>
          TimeForcing_linear_double (Finite 8030) tcc_default_double = Inr v \<and> dle v u"
    by blast+
  then have "dlt (Finite (- 3602879701896397 / 2 ^ 54)) (Finite 0)"
    and "dle (Finite (- 3602879701896397 / 2 ^ 54)) (Finite (- 3602879701896397 / 2 ^ 55))"
    unfolding v1 v2 by blast+
  with h1 h0 c z v1 v2 show ?thesis by (simp only: simp_thms)
qed

theorem linear_strictly_decreasing_counterexample:
  "is_double (Finite (1000000 + 1 / 2 ^ 33)) \<and> is_double (Finite (1000000 + 1 / 2 ^ 32)) \<and>
   dlt tcc_default_double (Finite (1000000 + 1 / 2 ^ 33)) \<and>
   dlt (Finite (1000000 + 1 / 2 ^ 33)) (Finite (1000000 + 1 / 2 ^ 32)) \<and>
   TimeForcing_linear_double (Finite (1000000 + 1 / 2 ^ 33)) tcc_default_double
     = Inr (Finite (- 2392296313190653 / 2 ^ 43)) \<and>
   TimeForcing_linear_double (Finite (1000000 + 1 / 2 ^ 32)) tcc_default_double
     = Inr (Finite (- 2392296313190653 / 2 ^ 43))"
proof -
  have n1: "\<not> dlt (Finite (1000000 + 1 / 2 ^ 33)) (Finite 7300)"
    and n2: "\<not> dlt (Finite (1000000 + 1 / 2 ^ 32)) (Finite 7300)"
    by simp_all
  have "TimeForcing_linear_double (Finite (1000000 + 1 / 2 ^ 33)) tcc_default_double
     = Inr (Finite (- 2392296313190653 / 2 ^ 43))"
    by (simp only: tcc_default_double_eq linear_double_else [OF n1] dsub_1e6_1 dmul_1e6_1 ddiv_1e6_1)
  moreover have "TimeForcing_linear_double (Finite (1000000 + 1 / 2 ^ 32)) tcc_default_double
     = Inr (Finite (- 2392296313190653 / 2 ^ 43))"
    by (simp only: tcc_default_double_eq linear_double_else [OF n2] dsub_1e6_2 dmul_1e6_2 ddiv_1e6_2)
  moreover have "is_double (Finite (1000000 + 1 / 2 ^ 33))" "is_double (Finite (1000000 + 1 / 2 ^ 32))"
    by (simp_all only: is_double.simps double_1e6_1 double_1e6_2)
  moreover have "dlt tcc_default_double (Finite (1000000 + 1 / 2 ^ 33))"
    "dlt (Finite (1000000 + 1 / 2 ^ 33)) (Finite (1000000 + 1 / 2 ^ 32))"
    by (simp_all add: tcc_default_double_eq)
  ultimately show ?thesis by (simp only: simp_thms)
qed

text \<open>
  Claim C7. The forcing the constructor resolves the token \<^verbatim>\<open>"cyclic-linear"\<close> to
  returns, at every time \<open>t\<close>, the sum of \<^verbatim>\<open>TimeForcing.cyclic(t)\<close> and of
  \<^verbatim>\<open>TimeForcing.linear(t)\<close>, the latter called with its default start time.
\<close>

theorem cyclic_linear_sum:
  "\<exists>f l. self_F (init a b G (Str ''cyclic-linear'') sz) = Some f \<and>
         TimeForcing_linear t tcc_default = Inr l \<and>
         f t = Inr (TimeForcing_cyclic t + l)"
proof -
  have F: "self_F (init a b G (Str ''cyclic-linear'') sz) = Some forcing_cyclic_linear"
    by (simp add: init_def DiffDynSyst_init_def)
  obtain l where l: "TimeForcing_linear t tcc_default = Inr l"
    by (cases "t < tcc_default") (simp_all add: linear_before linear_from)
  then have "forcing_cyclic_linear t = Inr (TimeForcing_cyclic t + l)"
    by (simp add: forcing_cyclic_linear_def)
  with F l show ?thesis by blast
qed

lemma init_fields:
  "self_a (init a b G F sz) = a" "self_b (init a b G F sz) = b"
  "self_G (init a b G F sz) = G" "self_size (init a b G F sz) = sz"
  "self_dim (init a b G F sz) = 3"
  "self_bounds (init a b G F sz) = [[- 1, - 3, - 3], [3, 3, 3]]"
  by (simp_all add: init_def DiffDynSyst_init_def Let_def split: F_arg.splits)

lemma init_F:
  "self_F (init a b G (Callable f) sz) = Some f"
  "self_F (init a b G PyNone sz) = Some forcing_constant"
  "self_F (init a b G (PyFloat x) sz) = Some forcing_constant"
  "self_F (init a b G (Str s) sz) =
     (if s = ''cyclic'' then Some forcing_cyclic
      else if s = ''linear'' then Some forcing_linear
      else if s = ''cyclic-linear'' then Some forcing_cyclic_linear
      else None)"
  by (simp_all add: init_def DiffDynSyst_init_def Let_def)

lemma forcings_not_constant:
  "forcing_cyclic \<noteq> forcing_constant" "forcing_linear \<noteq> forcing_constant"
  "forcing_cyclic_linear \<noteq> forcing_constant"
proof -
  have c: "forcing_constant 0 = Inr 6"
    by (simp add: forcing_constant_def TimeForcing_constant_def)
  have "forcing_cyclic 0 \<noteq> Inr 6"
    by (simp add: forcing_cyclic_def TimeForcing_cyclic_def)
  with c show "forcing_cyclic \<noteq> forcing_constant" by metis
  have "forcing_linear 0 \<noteq> Inr 6"
    by (simp add: forcing_linear_def TimeForcing_linear_def tcc_default_def)
  with c show "forcing_linear \<noteq> forcing_constant" by metis
  have "forcing_cyclic_linear 0 \<noteq> Inr 6"
    by (simp add: forcing_cyclic_linear_def TimeForcing_linear_def tcc_default_def TimeForcing_cyclic_def)
  with c show "forcing_cyclic_linear \<noteq> forcing_constant" by metis
qed

lemma rhs_x_call_fails:
  assumes "call_F self t = Inl e"
  shows "\<exists>e'. rhs_x self X t = Inl e' \<and> (e' = ValueError \<or> e' = e)"
proof (cases "rhs_x self X t")
  case (Inl e')
  with rhs_x_Inl [OF Inl] assms show ?thesis by auto
next
  case (Inr v)
  with assms show ?thesis by (auto simp: rhs_x_def ebind_eq_Inr)
qed

lemma equation_call_fails:
  assumes X: "X < length (arrays w)" and F: "call_F (model w) t = Inl e"
  shows "\<exists>e'. returned (equation w X t) = Inl e' \<and> (e' = ValueError \<or> e' = e)"
proof -
  from rhs_x_call_fails [OF F] obtain e' where
    "rhs_x (model w) (arrays w ! X) t = Inl e'" and "e' = ValueError \<or> e' = e"
    by blast
  then show ?thesis
    unfolding equation_unfold [OF X] Let_def by (simp add: returned_def)
qed

lemma upt_3: "[0 ..< 3] = [0, 1, 2::nat]"
  by (simp add: upt_rec)

lemma upt_6: "[0 ..< 6] = [0, 1, 2, 3, 4, 5::nat]"
  by (simp add: upt_rec)

lemma call_F_Some: "self_F self = Some f \<Longrightarrow> call_F self t = f t"
  by (simp add: call_F_def)

lemma returned_packed:
  assumes "X < length (arrays w)" and "length (arrays w ! X) = 3 * N"
    and "call_F (model w) t = Inr v"
  shows "returned (equation w X t) = Inr (map (field_entry (model w) v (arrays w ! X)) [0 ..< 3 * N])"
  by (simp add: equation_packed [OF assms] returned_def)

lemma list3: "length d = 3 \<Longrightarrow> d = [d ! 0, d ! 1, d ! 2]"
  by (auto simp: numeral_3_eq_3 length_Suc_conv)

lemma example_world_simps:
  "model (example_world F xs) = init (1 / 4) 4 1 F 1"
  "arrays (example_world F xs) = [xs]"
  by (simp_all add: example_world_def example_model_def)

lemma call_F_constant:
  "self_F self = Some forcing_constant \<Longrightarrow> call_F self t = Inr 6"
  by (simp add: call_F_def forcing_constant_def TimeForcing_constant_def)

lemma returned_snd: "snd r = Inl e \<Longrightarrow> returned r = Inl e"
  by (cases r) (simp add: returned_def)

section \<open>The constructor\<close>

text \<open>
  An argument \<^verbatim>\<open>F\<close> that is neither a callable nor a string (\<^verbatim>\<open>None\<close>, the default,
  included) gives the model the forcing \<^verbatim>\<open>TimeForcing.constant\<close>.
\<close>

lemma init_fallback_constant:
  assumes "\<forall>f. F \<noteq> Callable f" and "\<forall>s. F \<noteq> Str s"
  shows "self_F (init a b G F sz) = Some forcing_constant"
  using assms by (cases F) (simp_all add: init_F)

lemma rhs_x_packed_call_fails:
  assumes "length X = 3 * N" and "call_F self t = Inl e"
  shows "rhs_x self X t = Inl e"
  using assms
  by (simp add: rhs_x_def slice3_packed np_sub_def np_neg_def np_sq_def np_smul_def
      np_binop_maps o_def)

text \<open>
  Claim C3. The claim wants the constant forcing for every argument that is neither a
  callable nor one of the three tokens, unrecognised strings included. For those strings
  the constructor assigns nothing: at \<^verbatim>\<open>F = "seasonal"\<close> it leaves \<^verbatim>\<open>self.F\<close> at \<^verbatim>\<open>None\<close>,
  which is not \<^verbatim>\<open>TimeForcing.constant\<close>, and the model it returns raises a \<^verbatim>\<open>TypeError\<close>
  when \<^verbatim>\<open>_equation\<close> calls its forcing.
\<close>

theorem unrecognised_string_forcing_unset:
  "self_F (init (1 / 4) 4 1 (Str ''seasonal'') 1) = None \<and>
   self_F (init (1 / 4) 4 1 (Str ''seasonal'') 1) \<noteq> Some forcing_constant \<and>
   returned (equation (example_world (Str ''seasonal'') [1, 2, 3]) 0 0) = Inl TypeError"
proof -
  let ?w = "example_world (Str ''seasonal'') [1, 2, 3]"
  have N: "self_F (init (1 / 4) 4 1 (Str ''seasonal'') 1) = None"
    by (simp add: init_F)
  have X: "0 < length (arrays ?w)" and l: "length (arrays ?w ! 0) = 3 * 1"
    by (simp_all add: example_world_simps)
  have "call_F (model ?w) 0 = Inl TypeError"
    by (simp add: call_F_def example_world_simps N)
  from rhs_x_packed_call_fails [OF l this]
  have "returned (equation ?w 0 0) = Inl TypeError"
    unfolding equation_unfold [OF X] Let_def by (simp add: returned_def)
  with N show ?thesis by simp
qed

text \<open>
  Claim C5. A string that is none of \<^verbatim>\<open>"cyclic"\<close>, \<^verbatim>\<open>"linear"\<close>, \<^verbatim>\<open>"cyclic-linear"\<close>
  leaves \<^verbatim>\<open>self.F\<close> at \<^verbatim>\<open>None\<close>, and then every call of \<^verbatim>\<open>_equation\<close> raises (a
  \<^verbatim>\<open>TypeError\<close> from calling \<^verbatim>\<open>None\<close>, unless the shapes have raised a \<^verbatim>\<open>ValueError\<close>
  before). No string resolves to the constant forcing, and a callable is stored as it is:
  the constant fallback belongs to the arguments that are neither.
\<close>

theorem unrecognised_string_unusable:
  assumes "s \<noteq> ''cyclic''" and "s \<noteq> ''linear''" and "s \<noteq> ''cyclic-linear''"
  shows "self_F (init a b G (Str s) sz) = None \<and>
         (\<forall>(w::world) X t. model w = init a b G (Str s) sz \<and> X < length (arrays w) \<longrightarrow>
            returned (equation w X t) = Inl ValueError \<or>
            returned (equation w X t) = Inl TypeError) \<and>
         (\<forall>s'. self_F (init a b G (Str s') sz) \<noteq> Some forcing_constant) \<and>
         (\<forall>f. self_F (init a b G (Callable f) sz) = Some f)"
proof (intro conjI allI impI)
  show N: "self_F (init a b G (Str s) sz) = None"
    using assms by (simp add: init_F)
  fix w :: world and X t
  assume a: "model w = init a b G (Str s) sz \<and> X < length (arrays w)"
  with N have "call_F (model w) t = Inl TypeError" by (simp add: call_F_def)
  from equation_call_fails [OF _ this, of X] a
  show "returned (equation w X t) = Inl ValueError \<or>
        returned (equation w X t) = Inl TypeError" by auto
next
  fix s'
  show "self_F (init a b G (Str s') sz) \<noteq> Some forcing_constant"
    by (simp add: init_F forcings_not_constant)
next
  fix f
  show "self_F (init a b G (Callable f) sz) = Some f" by (simp add: init_F)
qed

theorem unrecognised_string_unusable_witness:
  "''seasonal'' \<noteq> ''cyclic'' \<and> ''seasonal'' \<noteq> ''linear'' \<and> ''seasonal'' \<noteq> ''cyclic-linear'' \<and>
   self_F (init (1 / 4) 4 1 (Str ''seasonal'') 1) = None \<and>
   model (example_world (Str ''seasonal'') [1, 2, 3]) = init (1 / 4) 4 1 (Str ''seasonal'') 1 \<and>
   0 < length (arrays (example_world (Str ''seasonal'') [1, 2, 3])) \<and>
   (returned (equation (example_world (Str ''seasonal'') [1, 2, 3]) 0 0) = Inl ValueError \<or>
    returned (equation (example_world (Str ''seasonal'') [1, 2, 3]) 0 0) = Inl TypeError)"
proof -
  let ?w = "example_world (Str ''seasonal'') [1, 2, 3]"
  have h: "''seasonal'' \<noteq> ''cyclic''" "''seasonal'' \<noteq> ''linear''"
    "''seasonal'' \<noteq> ''cyclic-linear''"
    by simp_all
  have g: "model ?w = init (1 / 4) 4 1 (Str ''seasonal'') 1 \<and> 0 < length (arrays ?w)"
    by (simp add: example_world_simps)
  from unrecognised_string_unusable [OF h, of "1 / 4" 4 1 1] g h show ?thesis
    by blast
qed

section \<open>The vector field\<close>

text \<open>
  Claim C1. For a model whose forcing is resolved and returns \<open>Ft\<close> at time \<open>t\<close>, and a
  packed state of length \<open>3 N\<close>, \<^verbatim>\<open>_equation\<close> returns an array of that length whose
  entries at the indices \<open>3 i\<close>, \<open>3 i + 1\<close>, \<open>3 i + 2\<close>, for every orbit \<open>i < N\<close>, are
  \<open>- y\<^sup>2 - z\<^sup>2 - a x + a Ft\<close>, \<open>x y - b x z - y + G\<close> and \<open>x z + b x y - z\<close>, where
  \<open>x\<close>, \<open>y\<close>, \<open>z\<close> are the entries of the state at the same three indices.
\<close>

theorem equation_formulas:
  assumes X: "X < length (arrays w)" and len: "length (arrays w ! X) = 3 * N"
    and F: "self_F (model w) = Some f" and Ft: "f t = Inr Ft"
  shows "\<exists>d. returned (equation w X t) = Inr d \<and> length d = 3 * N \<and>
    (\<forall>i<N. d ! (3 * i) = - ((arrays w ! X ! (3 * i + 1)) ^ 2) - (arrays w ! X ! (3 * i + 2)) ^ 2
                          - self_a (model w) * arrays w ! X ! (3 * i) + self_a (model w) * Ft \<and>
           d ! (3 * i + 1) = arrays w ! X ! (3 * i) * arrays w ! X ! (3 * i + 1)
                          - self_b (model w) * arrays w ! X ! (3 * i) * arrays w ! X ! (3 * i + 2)
                          - arrays w ! X ! (3 * i + 1) + self_G (model w) \<and>
           d ! (3 * i + 2) = arrays w ! X ! (3 * i) * arrays w ! X ! (3 * i + 2)
                          + self_b (model w) * arrays w ! X ! (3 * i) * arrays w ! X ! (3 * i + 1)
                          - arrays w ! X ! (3 * i + 2))"
proof -
  let ?d = "map (field_entry (model w) Ft (arrays w ! X)) [0 ..< 3 * N]"
  have c: "call_F (model w) t = Inr Ft" using F Ft by (simp add: call_F_Some)
  have r: "returned (equation w X t) = Inr ?d" by (rule returned_packed [OF X len c])
  have n: "?d ! j = field_entry (model w) Ft (arrays w ! X) j" if "j < 3 * N" for j
    using that by simp
  have "?d ! (3 * i) = field_entry (model w) Ft (arrays w ! X) (3 * i) \<and>
        ?d ! (3 * i + 1) = field_entry (model w) Ft (arrays w ! X) (3 * i + 1) \<and>
        ?d ! (3 * i + 2) = field_entry (model w) Ft (arrays w ! X) (3 * i + 2)"
    if "i < N" for i
    using that n [of "3 * i"] n [of "3 * i + 1"] n [of "3 * i + 2"] by simp
  then have "\<forall>i<N. ?d ! (3 * i) = field_entry (model w) Ft (arrays w ! X) (3 * i) \<and>
        ?d ! (3 * i + 1) = field_entry (model w) Ft (arrays w ! X) (3 * i + 1) \<and>
        ?d ! (3 * i + 2) = field_entry (model w) Ft (arrays w ! X) (3 * i + 2)"
    by blast
  then have nn: "\<forall>i<N. ?d ! (3 * i) = - ((arrays w ! X ! (3 * i + 1)) ^ 2) - (arrays w ! X ! (3 * i + 2)) ^ 2
                          - self_a (model w) * arrays w ! X ! (3 * i) + self_a (model w) * Ft \<and>
           ?d ! (3 * i + 1) = arrays w ! X ! (3 * i) * arrays w ! X ! (3 * i + 1)
                          - self_b (model w) * arrays w ! X ! (3 * i) * arrays w ! X ! (3 * i + 2)
                          - arrays w ! X ! (3 * i + 1) + self_G (model w) \<and>
           ?d ! (3 * i + 2) = arrays w ! X ! (3 * i) * arrays w ! X ! (3 * i + 2)
                          + self_b (model w) * arrays w ! X ! (3 * i) * arrays w ! X ! (3 * i + 1)
                          - arrays w ! X ! (3 * i + 2)"
    by (simp only: field_entry_0 field_entry_1 field_entry_2)
  have l: "length ?d = 3 * N" by simp
  from r l nn show ?thesis by blast
qed

theorem equation_formulas_witness:
  "0 < length (arrays (example_world PyNone [1, 2, 3])) \<and>
   length (arrays (example_world PyNone [1, 2, 3]) ! 0) = 3 * 1 \<and>
   self_F (model (example_world PyNone [1, 2, 3])) = Some forcing_constant \<and>
   forcing_constant 0 = Inr 6 \<and>
   returned (equation (example_world PyNone [1, 2, 3]) 0 0) = Inr [- 47 / 4, - 11, 8]"
proof -
  let ?w = "example_world PyNone [1, 2, 3]"
  have h1: "0 < length (arrays ?w)" and h2: "length (arrays ?w ! 0) = 3 * 1"
    and h3: "self_F (model ?w) = Some forcing_constant"
    and h4: "forcing_constant 0 = Inr 6"
    by (simp_all add: example_world_simps init_F forcing_constant_def TimeForcing_constant_def)
  from equation_formulas [OF h1 h2 h3 h4] obtain d where
    r: "returned (equation ?w 0 0) = Inr d" and l: "length d = 3 * 1" and
    e: "d ! (3 * 0) = - (([1, 2, 3::real] ! (3 * 0 + 1)) ^ 2) - ([1, 2, 3] ! (3 * 0 + 2)) ^ 2
                      - 1 / 4 * [1, 2, 3] ! (3 * 0) + 1 / 4 * 6 \<and>
        d ! (3 * 0 + 1) = [1, 2, 3] ! (3 * 0) * [1, 2, 3] ! (3 * 0 + 1)
                      - 4 * [1, 2, 3] ! (3 * 0) * [1, 2, 3] ! (3 * 0 + 2)
                      - [1, 2, 3] ! (3 * 0 + 1) + 1 \<and>
        d ! (3 * 0 + 2) = [1, 2, 3] ! (3 * 0) * [1, 2, 3] ! (3 * 0 + 2)
                      + 4 * [1, 2, 3] ! (3 * 0) * [1, 2, 3] ! (3 * 0 + 1)
                      - [1, 2, 3] ! (3 * 0 + 2)"
    unfolding example_world_simps init_fields by force
  have l3: "length d = 3" using l by simp
  have "d ! 0 = - 47 / 4" "d ! 1 = - 11" "d ! 2 = 8"
    using e by (simp_all add: eval_nat_numeral)
  with list3 [OF l3] have "d = [- 47 / 4, - 11, 8]" by simp
  with r h1 h2 h3 h4 show ?thesis by simp
qed

text \<open>
  Claim C10. For a model built with parameters \<open>a\<close>, \<open>b\<close>, \<open>G\<close>, one orbit and the default
  (constant) forcing, the derivative of the state \<open>(0, 0, 0)\<close> is \<open>(6 a, G, 0)\<close> at every time.
\<close>

theorem equation_origin:
  assumes X: "X < length (arrays w)" and xs: "arrays w ! X = [0, 0, 0]"
    and m: "model w = init a b G PyNone 1"
  shows "returned (equation w X t) = Inr [a * 6, G, 0]"
proof -
  have len: "length (arrays w ! X) = 3 * 1" by (simp add: xs)
  have c: "call_F (model w) t = Inr 6" by (rule call_F_constant) (simp add: m init_F)
  show ?thesis
    unfolding returned_packed [OF X len c]
    by (simp add: upt_3 field_entry_def Let_def xs m init_fields)
qed

theorem equation_origin_witness:
  "0 < length (arrays (example_world PyNone [0, 0, 0])) \<and>
   arrays (example_world PyNone [0, 0, 0]) ! 0 = [0, 0, 0] \<and>
   model (example_world PyNone [0, 0, 0]) = init (1 / 4) 4 1 PyNone 1 \<and>
   returned (equation (example_world PyNone [0, 0, 0]) 0 0) = Inr [3 / 2, 1, 0]"
proof -
  let ?w = "example_world PyNone [0, 0, 0]"
  have h1: "0 < length (arrays ?w)" and h2: "arrays ?w ! 0 = [0, 0, 0]"
    and h3: "model ?w = init (1 / 4) 4 1 PyNone 1"
    by (simp_all add: example_world_simps)
  from equation_origin [OF h1 h2 h3, of 0] h1 h2 h3 show ?thesis by simp
qed

text \<open>
  Claim C2. For one model and one time at which the forcing returns, the derivative of the
  packed state \<open>[x0, y0, z0, x1, y1, z1]\<close> has six entries; its first three are the
  derivative of the state \<open>[x0, y0, z0]\<close> alone and its last three the derivative of
  \<open>[x1, y1, z1]\<close> alone, whatever the other orbit is.
\<close>

theorem two_orbits_independent:
  assumes "X < length (arrays w)" and "arrays w ! X = [x0, y0, z0, x1, y1, z1]"
    and "Xa < length (arrays wa)" and "arrays wa ! Xa = [x0, y0, z0]"
    and "Xb < length (arrays wb)" and "arrays wb ! Xb = [x1, y1, z1]"
    and "model wa = model w" and "model wb = model w"
    and "call_F (model w) t = Inr Ft"
  shows "\<exists>d da db. returned (equation w X t) = Inr d \<and>
           returned (equation wa Xa t) = Inr da \<and>
           returned (equation wb Xb t) = Inr db \<and>
           length d = 6 \<and> take 3 d = da \<and> drop 3 d = db"
proof -
  have l: "length (arrays w ! X) = 3 * 2" "length (arrays wa ! Xa) = 3 * 1"
    "length (arrays wb ! Xb) = 3 * 1"
    using assms by simp_all
  have ca: "call_F (model wa) t = Inr Ft" and cb: "call_F (model wb) t = Inr Ft"
    using assms by simp_all
  have r: "returned (equation w X t) =
      Inr (map (field_entry (model w) Ft [x0, y0, z0, x1, y1, z1]) [0, 1, 2, 3, 4, 5])"
    using returned_packed [OF assms(1) l(1) assms(9)] by (simp add: upt_6 assms(2))
  have ra: "returned (equation wa Xa t) =
      Inr (map (field_entry (model w) Ft [x0, y0, z0]) [0, 1, 2])"
    using returned_packed [OF assms(3) l(2) ca] by (simp add: upt_3 assms(4) assms(7))
  have rb: "returned (equation wb Xb t) =
      Inr (map (field_entry (model w) Ft [x1, y1, z1]) [0, 1, 2])"
    using returned_packed [OF assms(5) l(3) cb] by (simp add: upt_3 assms(6) assms(8))
  show ?thesis
    unfolding r ra rb by (simp add: field_entry_def Let_def)
qed

theorem two_orbits_independent_witness:
  "returned (equation (example_world PyNone [1, 2, 3, 4, 5, 6]) 0 0)
     = Inr [- 47 / 4, - 11, 8, - 121 / 2, - 80, 98] \<and>
   returned (equation (example_world PyNone [1, 2, 3]) 0 0) = Inr [- 47 / 4, - 11, 8] \<and>
   returned (equation (example_world PyNone [4, 5, 6]) 0 0) = Inr [- 121 / 2, - 80, 98]"
proof -
  let ?w = "example_world PyNone [1, 2, 3, 4, 5, 6]"
  let ?wa = "example_world PyNone [1, 2, 3]"
  let ?wb = "example_world PyNone [4, 5, 6]"
  have c: "call_F (model ?w) 0 = Inr 6"
    by (rule call_F_constant) (simp add: example_world_simps init_F)
  have ra: "returned (equation ?wa 0 0) = Inr [- 47 / 4, - 11, 8]"
    using returned_packed [of 0 ?wa 1 0 6] c
    by (simp add: example_world_simps upt_3 field_entry_def Let_def init_fields)
  have rb: "returned (equation ?wb 0 0) = Inr [- 121 / 2, - 80, 98]"
    using returned_packed [of 0 ?wb 1 0 6] c
    by (simp add: example_world_simps upt_3 field_entry_def Let_def init_fields)
  from two_orbits_independent [of 0 ?w 1 2 3 4 5 6 0 ?wa 0 ?wb 0 6] c
  obtain d where "returned (equation ?w 0 0) = Inr d" and "length d = 6"
    and "take 3 d = [- 47 / 4, - 11, 8]" and "drop 3 d = [- 121 / 2, - 80, 98]"
    unfolding ra rb by (auto simp: example_world_simps)
  moreover from this have "d = [- 47 / 4, - 11, 8] @ [- 121 / 2, - 80, 98]"
    by (metis append_take_drop_id)
  ultimately show ?thesis using ra rb by simp
qed

text \<open>
  Claim C4, as the source has it. \<^verbatim>\<open>_equation\<close> never looks at the orbit count of the
  model; what it cannot do is combine slices of different lengths. So a state whose length
  is not a multiple of three makes the call raise, and no array is returned: the exception
  is numpy's \<^verbatim>\<open>ValueError\<close> for shapes that do not fit, unless the call of the forcing has
  raised first. The input is neither cut nor padded. A state whose length is a multiple of
  three other than \<open>3 N\<close> is accepted, as the last theorem below shows for six entries
  and one orbit.
\<close>

theorem equation_shape_mismatch:
  assumes "X < length (arrays w)" and "length (arrays w ! X) mod 3 \<noteq> 0"
  shows "\<exists>e. returned (equation w X t) = Inl e \<and>
             (e = ValueError \<or> call_F (model w) t = Inl e)"
proof -
  from equation_fails [OF assms] obtain e where
    "snd (equation w X t) = Inl e" and "e = ValueError \<or> call_F (model w) t = Inl e"
    by blast
  then show ?thesis using returned_snd by blast
qed

theorem equation_shape_mismatch_witness:
  "0 < length (arrays (example_world PyNone [1, 2, 3, 4])) \<and>
   length (arrays (example_world PyNone [1, 2, 3, 4]) ! 0) mod 3 \<noteq> 0 \<and>
   returned (equation (example_world PyNone [1, 2, 3, 4]) 0 0) = Inl ValueError"
proof -
  let ?w = "example_world PyNone [1, 2, 3, 4]"
  have h1: "0 < length (arrays ?w)" and h2: "length (arrays ?w ! 0) mod 3 \<noteq> 0"
    by (simp_all add: example_world_simps)
  have c: "call_F (model ?w) 0 = Inr 6"
    by (rule call_F_constant) (simp add: example_world_simps init_F)
  from equation_shape_mismatch [OF h1 h2, of 0] c h1 h2 show ?thesis by auto
qed

theorem orbit_count_unchecked_counterexample:
  "int (length (arrays (example_world PyNone [1, 2, 3, 4, 5, 6]) ! 0))
     \<noteq> 3 * self_size (model (example_world PyNone [1, 2, 3, 4, 5, 6])) \<and>
   returned (equation (example_world PyNone [1, 2, 3, 4, 5, 6]) 0 0)
     = Inr [- 47 / 4, - 11, 8, - 121 / 2, - 80, 98]"
proof -
  let ?w = "example_world PyNone [1, 2, 3, 4, 5, 6]"
  have c: "call_F (model ?w) 0 = Inr 6"
    by (rule call_F_constant) (simp add: example_world_simps init_F)
  have "returned (equation ?w 0 0) = Inr [- 47 / 4, - 11, 8, - 121 / 2, - 80, 98]"
    using returned_packed [of 0 ?w 2 0 6] c
    by (simp add: example_world_simps upt_6 field_entry_def Let_def init_fields)
  then show ?thesis by (simp add: example_world_simps init_fields)
qed

text \<open>
  Claim C6. A call of \<^verbatim>\<open>_equation\<close> leaves the model and every array that existed before
  the call as they were, the state vector included, whether it returns or raises. What
  it adds is one array, allocated by the call; when the call returns, that array is the
  result: its address is new, so it is not the address of the input, and it is as long as
  the input.
\<close>

theorem equation_fresh_output:
  assumes X: "X < length (arrays w)" and eq: "equation w X t = (w', r)"
  shows "model w' = model w \<and>
         length (arrays w') = Suc (length (arrays w)) \<and>
         (\<forall>a<length (arrays w). arrays w' ! a = arrays w ! a) \<and>
         (\<forall>d. r = Inr d \<longrightarrow>
            d = length (arrays w) \<and> d \<noteq> X \<and>
            length (arrays w' ! d) = length (arrays w ! X))"
proof -
  from equation_frame(1) [OF X eq] obtain d where
    w': "w' = w \<lparr> arrays := arrays w @ [d] \<rparr>" and d: "length d = length (arrays w ! X)"
    by blast
  have a: "r = Inr a \<Longrightarrow> a = length (arrays w)" for a
    by (rule equation_frame(2) [OF X eq])
  show ?thesis
    using X d a by (auto simp: w' nth_append)
qed

theorem equation_fresh_output_witness:
  "0 < length (arrays (example_world PyNone [1, 2, 3])) \<and>
   equation (example_world PyNone [1, 2, 3]) 0 0 =
     (example_world PyNone [1, 2, 3] \<lparr> arrays := [[1, 2, 3], [- 47 / 4, - 11, 8]] \<rparr>, Inr 1) \<and>
   model (example_world PyNone [1, 2, 3] \<lparr> arrays := [[1, 2, 3], [- 47 / 4, - 11, 8]] \<rparr>)
     = model (example_world PyNone [1, 2, 3]) \<and>
   (1::nat) \<noteq> 0 \<and>
   length ([[1, 2, 3], [- 47 / 4, - 11, 8::real]] ! 1) = length [1, 2, 3::real]"
proof -
  let ?w = "example_world PyNone [1, 2, 3]"
  let ?w' = "?w \<lparr> arrays := [[1, 2, 3], [- 47 / 4, - 11, 8]] \<rparr>"
  have h1: "0 < length (arrays ?w)" by (simp add: example_world_simps)
  have c: "call_F (model ?w) 0 = Inr 6"
    by (rule call_F_constant) (simp add: example_world_simps init_F)
  have h2: "equation ?w 0 0 = (?w', Inr 1)"
    using equation_packed [of 0 ?w 1 0 6] c
    by (simp add: example_world_simps upt_3 field_entry_def Let_def init_fields)
  from equation_fresh_output [OF h1 h2] h1 h2 show ?thesis
    by (simp add: example_world_simps)
qed

end
